theory Spec2Isabelle
  imports Complex_Main
begin

section \<open>The editing session of the image processing tool\<close>

text \<open>
  The development embeds the class \<open>AdvancedImageProcessor\<close> of
  \<^verbatim>\<open>ImageProcessingTool_Working.py\<close>: its image state (\<open>current_image\<close>,
  \<open>original_image\<close>), the bounded undo/redo history (a \<open>deque(maxlen=20)\<close> with the
  cursor \<open>history_index\<close>), the dispatcher \<open>process_with_progress\<close>, the effect handlers
  that go through it, and \<open>export_all_formats\<close>.

  Conventions of the embedding:
  \<^item> An image is a value of an arbitrary type \<open>'img\<close>; \<open>Image.copy()\<close> is the identity on
    values and "bit-identical" is equality.
  \<^item> Pillow, NumPy, the file system and the Python builtins the handlers call are the
    fields of an environment record \<open>env\<close>. Every transform may raise: it returns
    \<open>exn + 'img\<close>, with \<open>Inl\<close> the exception. The theorems hold for every environment.
  \<^item> Slider values are \<open>real\<close>: the handlers only compare them with constants and hand
    them to the library.
  \<^item> A handler is a Tk callback: an exception that leaves it is reported by Tk and the
    session goes on with the state reached at the raise. The model keeps that state and
    records \<open>Uncaught\<close> in the event log.
  \<^item> The worker thread of \<open>process_with_progress\<close> and the callbacks it schedules with
    \<open>root.after\<close> are run to completion before the handler returns (one operation in
    flight, finished before the next request).
  \<^item> Widget updates (\<open>config\<close>, \<open>set\<close>, message boxes) are taken not to raise; message boxes
    and status texts are recorded in the event log, the only observable they have.
\<close>

subsection \<open>Exceptions and events\<close>

datatype exn =
    IndexError string
  | ValueError string
  | AttributeError string
  | NameError string
  | OtherError string

fun str :: "exn \<Rightarrow> string" where
  "str (IndexError m) = m"
| "str (ValueError m) = m"
| "str (AttributeError m) = m"
| "str (NameError m) = m"
| "str (OtherError m) = m"

datatype event =
    Status string
  | ShowError string string
  | ShowWarning string string
  | ShowInfo string string
  | ThreadStarted
  | FileSaved string string
  | Uncaught exn

subsection \<open>The bounded deque\<close>

text \<open>
  \<open>collections.deque(maxlen=20)\<close> as a list, oldest entry first. \<open>append\<close> on a full deque
  discards the leftmost entry; \<open>pop\<close> removes the rightmost one and raises IndexError on an
  empty deque; indexing accepts negative indices and raises IndexError out of range.
\<close>

definition maxlen :: nat where
  "maxlen = 20"

definition deque_append :: "'a \<Rightarrow> 'a list \<Rightarrow> 'a list" where
  "deque_append x xs = (if length xs = maxlen then tl xs @ [x] else xs @ [x])"

definition deque_get :: "'a list \<Rightarrow> int \<Rightarrow> exn + 'a" where
  "deque_get xs i =
     (if 0 \<le> i \<and> i < int (length xs) then Inr (xs ! nat i)
      else if i < 0 \<and> - int (length xs) \<le> i then Inr (xs ! nat (int (length xs) + i))
      else Inl (IndexError ''deque index out of range''))"

text \<open>
  The loop \<^verbatim>\<open>for _ in range(k): self.history.pop()\<close>. The deque is mutated in place, so
  the result carries the deque as it is when the loop ends or raises.
\<close>

fun pop_loop :: "nat \<Rightarrow> 'a list \<Rightarrow> exn option \<times> 'a list" where
  "pop_loop 0 xs = (None, xs)"
| "pop_loop (Suc k) xs =
     (if xs = [] then (Some (IndexError ''pop from an empty deque''), xs)
      else pop_loop k (butlast xs))"

subsection \<open>Session state\<close>

record 'img session =
  current_image :: "'img option"
  original_image :: "'img option"
  image_path :: "string option"
  history :: "'img list"
  history_index :: int
  zoom_factor :: real
  photo :: "'img option"
  brightness_var :: real
  contrast_var :: real
  saturation_var :: real
  temperature_var :: real
  width_var :: string
  height_var :: string
  watermark_text :: string
  watermark_position :: string
  images_processed :: nat
  operations_performed :: nat
  events :: "event list"

text \<open>The state \<open>__init__\<close> builds; the widget defaults are those of \<open>create_widgets\<close>.\<close>

definition init :: "'img session" where
  "init = \<lparr> current_image = None, original_image = None, image_path = None,
            history = [], history_index = - 1, zoom_factor = 1, photo = None,
            brightness_var = 1, contrast_var = 1, saturation_var = 1, temperature_var = 0,
            width_var = [], height_var = [],
            watermark_text = [CHR 0xA9] @ '' Your Name'', watermark_position = ''bottom-right'',
            images_processed = 0, operations_performed = 0, events = [] \<rparr>"

definition log :: "event \<Rightarrow> 'img session \<Rightarrow> 'img session" where
  "log e s = s\<lparr>events := events s @ [e]\<rparr>"

definition update_status :: "string \<Rightarrow> 'img session \<Rightarrow> 'img session" where
  "update_status message s = log (Status message) s"

text \<open>A Tk callback: an exception that leaves the handler is reported, the state stays.\<close>

fun tk_callback :: "exn option \<times> 'img session \<Rightarrow> 'img session" where
  "tk_callback (None, s) = s"
| "tk_callback (Some e, s) = log (Uncaught e) s"

subsection \<open>The library\<close>

text \<open>
  The image transforms the handlers call, by name and parameters. \<open>ConvertL\<close> and
  \<open>ConvertRGB\<close> are \<open>convert('L')\<close> and \<open>convert('RGB')\<close>; \<open>SepiaMatrix\<close> is the NumPy block
  \<open>dot(sepia_filter.T)\<close>, \<open>clip\<close>, \<open>astype(uint8)\<close>; \<open>SinusoidRemap\<close> the three per-channel
  sine/cosine assignments of \<open>psychedelic\<close>; \<open>ScaleWarm t\<close> and \<open>ScaleCool t\<close> the two branches
  of \<open>temp_adjust\<close>; \<open>Overlay text position\<close> the body of \<open>add_wm\<close>.
\<close>

datatype prim =
    GaussianBlur real
  | SHARPEN
  | EDGE_ENHANCE
  | EMBOSS
  | MedianFilter nat
  | UnsharpMask nat nat nat
  | ConvertL
  | ConvertRGB
  | SepiaMatrix
  | Posterize nat
  | SinusoidRemap
  | Equalize
  | ScaleWarm real
  | ScaleCool real
  | Brightness real
  | Contrast real
  | Color real
  | Sharpness real
  | Resize int int
  | Rotate int
  | FlipLeftRight
  | Overlay string string

record 'img env =
  pil :: "prim \<Rightarrow> 'img \<Rightarrow> exn + 'img"
  zoomed :: "'img \<Rightarrow> real \<Rightarrow> exn + 'img"
  decode :: "string \<Rightarrow> exn + 'img"
  image_size :: "'img \<Rightarrow> int \<times> int"
  image_mode :: "'img \<Rightarrow> string"
  flatten_white :: "'img \<Rightarrow> exn + 'img"
  save :: "'img \<Rightarrow> string \<Rightarrow> string \<Rightarrow> nat option \<Rightarrow> exn option"
  getsize :: "string \<Rightarrow> exn + nat"
  basename :: "string \<Rightarrow> string"
  stem :: "string \<Rightarrow> string"
  path_join :: "string \<Rightarrow> string \<Rightarrow> string"
  int_of_str :: "string \<Rightarrow> int option"
  str_of_int :: "int \<Rightarrow> string"
  strip :: "string \<Rightarrow> string"

text \<open>Sequencing of two library calls: the second runs on the result of the first.\<close>

definition and_then :: "exn + 'a \<Rightarrow> ('a \<Rightarrow> exn + 'b) \<Rightarrow> exn + 'b" where
  "and_then r f = (case r of Inl e \<Rightarrow> Inl e | Inr x \<Rightarrow> f x)"

subsection \<open>History\<close>

definition add_to_history :: "'img session \<Rightarrow> exn option \<times> 'img session" where
  "add_to_history s =
     (case current_image s of
        None \<Rightarrow> (None, s)
      | Some cur \<Rightarrow>
          (let n = int (length (history s));
               (raised, h) =
                 (if history_index s < n - 1
                  then pop_loop (nat (n - history_index s - 1)) (history s)
                  else (None, history s))
           in case raised of
                Some e \<Rightarrow> (Some e, s\<lparr>history := h\<rparr>)
              | None \<Rightarrow>
                  (let h' = deque_append cur h
                   in (None, s\<lparr>history := h', history_index := int (length h') - 1\<rparr>))))"

definition update_image_display :: "'img env \<Rightarrow> 'img session \<Rightarrow> exn option \<times> 'img session" where
  "update_image_display env s =
     (case current_image s of
        None \<Rightarrow> (None, s)
      | Some im \<Rightarrow>
          (if zoom_factor s \<noteq> 1
           then (case zoomed env im (zoom_factor s) of
                   Inl e \<Rightarrow> (Some e, s)
                 | Inr d \<Rightarrow> (None, s\<lparr>photo := Some d\<rparr>))
           else (None, s\<lparr>photo := Some im\<rparr>)))"

definition undo :: "'img env \<Rightarrow> 'img session \<Rightarrow> 'img session" where
  "undo env s =
     (if history_index s > 0 then
        (let s1 = s\<lparr>history_index := history_index s - 1\<rparr>
         in case deque_get (history s1) (history_index s1) of
              Inl e \<Rightarrow> tk_callback (Some e, s1)
            | Inr im \<Rightarrow>
                (case update_image_display env (s1\<lparr>current_image := Some im\<rparr>) of
                   (Some e, s2) \<Rightarrow> tk_callback (Some e, s2)
                 | (None, s2) \<Rightarrow> update_status ''Undo applied'' s2))
      else s)"

definition redo :: "'img env \<Rightarrow> 'img session \<Rightarrow> 'img session" where
  "redo env s =
     (if history_index s < int (length (history s)) - 1 then
        (let s1 = s\<lparr>history_index := history_index s + 1\<rparr>
         in case deque_get (history s1) (history_index s1) of
              Inl e \<Rightarrow> tk_callback (Some e, s1)
            | Inr im \<Rightarrow>
                (case update_image_display env (s1\<lparr>current_image := Some im\<rparr>) of
                   (Some e, s2) \<Rightarrow> tk_callback (Some e, s2)
                 | (None, s2) \<Rightarrow> update_status ''Redo applied'' s2))
      else s)"

subsection \<open>Loading and resetting\<close>

text \<open>
  \<open>open_image\<close>; \<open>file_path\<close> is what the file dialog returned (empty when cancelled).
  \<open>decode\<close> is \<open>Image.open(file_path).convert('RGB')\<close>. The whole body is inside
  \<open>try\<close>: a raise shows the error box and leaves the assignments made so far.
\<close>

definition open_failed :: "exn \<Rightarrow> 'img session \<Rightarrow> 'img session" where
  "open_failed e s = log (ShowError ''Error'' (''Failed to open image: '' @ str e)) s"

definition open_image :: "'img env \<Rightarrow> string \<Rightarrow> 'img session \<Rightarrow> 'img session" where
  "open_image env file_path s =
     (if file_path = [] then s
      else
        (let s1 = s\<lparr>image_path := Some file_path\<rparr>
         in case decode env file_path of
              Inl e \<Rightarrow> open_failed e s1
            | Inr img \<Rightarrow>
                (let s2 = s1\<lparr>original_image := Some img, current_image := Some img\<rparr>
                 in case getsize env file_path of
                      Inl e \<Rightarrow> open_failed e s2
                    | Inr file_size \<Rightarrow>
                        (let s3 = s2\<lparr>width_var := str_of_int env (fst (image_size env img)),
                                      height_var := str_of_int env (snd (image_size env img)),
                                      brightness_var := 1, contrast_var := 1,
                                      saturation_var := 1, temperature_var := 0,
                                      zoom_factor := 1,
                                      history := deque_append img [],
                                      history_index := 0\<rparr>
                         in case update_image_display env s3 of
                              (Some e, s4) \<Rightarrow> open_failed e s4
                            | (None, s4) \<Rightarrow>
                                (let s5 = update_status (''Loaded: '' @ basename env file_path) s4
                                 in s5\<lparr>images_processed := images_processed s5 + 1\<rparr>)))))"

text \<open>\<open>reset_image\<close>; \<open>confirm\<close> is the answer to the \<open>askyesno\<close> dialog.\<close>

definition reset_image :: "'img env \<Rightarrow> bool \<Rightarrow> 'img session \<Rightarrow> 'img session" where
  "reset_image env confirm s =
     (case original_image s of
        None \<Rightarrow> s
      | Some orig \<Rightarrow>
          (if confirm then
             (let s1 = s\<lparr>current_image := Some orig,
                          brightness_var := 1, contrast_var := 1,
                          saturation_var := 1, temperature_var := 0,
                          zoom_factor := 1,
                          history := deque_append orig [],
                          history_index := 0\<rparr>
              in case update_image_display env s1 of
                   (Some e, s2) \<Rightarrow> tk_callback (Some e, s2)
                 | (None, s2) \<Rightarrow> update_status ''Image reset'' s2)
           else s))"

subsection \<open>Dispatching an operation\<close>

text \<open>
  \<open>process_func\<close> is a closure over \<open>self\<close>: it reads the session when the worker calls it.
  Its result is \<open>Inl\<close> an exception, \<open>Inr None\<close> a falsy result, \<open>Inr (Some r)\<close> an image.
\<close>

type_synonym 'img process_func = "'img session \<Rightarrow> exn + 'img option"

text \<open>
  The callback the \<open>except\<close> clause of \<open>run_process\<close> schedules with \<open>root.after\<close>:
  \<^verbatim>\<open>lambda: messagebox.showerror("Error", f"Processing failed: {str(e)}")\<close>.
  The lambda reads the variable \<open>e\<close> of \<open>run_process\<close> when Tk calls it; \<open>cell\<close> is what
  that variable holds at that moment, \<open>None\<close> when it is unbound.
\<close>

definition processing_failed :: "exn option \<Rightarrow> 'img session \<Rightarrow> 'img session" where
  "processing_failed cell s =
     (case cell of
        None \<Rightarrow>
          tk_callback
            (Some (NameError (''cannot access free variable '' @ [CHR 0x27] @ ''e'' @ [CHR 0x27] @
                              '' where it is not associated with a value in enclosing scope'')),
             s)
      | Some e \<Rightarrow> log (ShowError ''Error'' (''Processing failed: '' @ str e)) s)"

text \<open>
  The worker \<open>run_process\<close>, followed by the callbacks it has scheduled. Python unbinds the
  name of \<open>except Exception as e\<close> when the clause ends, and the worker reaches that point
  as soon as \<open>after\<close> has returned; the scheduled callback runs from the main loop after
  the worker, so it finds \<open>e\<close> unbound.
\<close>

definition run_process :: "'img env \<Rightarrow> 'img process_func \<Rightarrow> 'img session \<Rightarrow> 'img session" where
  "run_process env process_func s =
     (case process_func s of
        Inl e \<Rightarrow> processing_failed None s
      | Inr None \<Rightarrow> s
      | Inr (Some result) \<Rightarrow>
          (let s1 = s\<lparr>current_image := Some result\<rparr>;
               s2 = s1\<lparr>operations_performed := operations_performed s1 + 1\<rparr>;
               s3 = tk_callback (update_image_display env s2)
           in update_status ''Operation completed'' s3))"

definition process_with_progress ::
  "'img env \<Rightarrow> string \<Rightarrow> 'img process_func \<Rightarrow> 'img session \<Rightarrow> exn option \<times> 'img session" where
  "process_with_progress env message process_func s =
     (case current_image s of
        None \<Rightarrow> (None, s)
      | Some _ \<Rightarrow>
          (case add_to_history s of
             (Some e, s1) \<Rightarrow> (Some e, s1)
           | (None, s1) \<Rightarrow>
               (None, run_process env process_func (log ThreadStarted (update_status message s1)))))"

text \<open>
  A closure body of the form \<open>f(self.current_image)\<close>. The worker only runs after
  \<open>process_with_progress\<close> has seen an image, so the \<open>None\<close> branch (a call on \<open>None\<close>) is
  never taken; it is there to keep the function total.
\<close>

definition on_current :: "('img \<Rightarrow> exn + 'img) \<Rightarrow> 'img process_func" where
  "on_current f s =
     (case current_image s of
        None \<Rightarrow> Inl (AttributeError ''NoneType'')
      | Some im \<Rightarrow> and_then (f im) (\<lambda>r. Inr (Some r)))"

subsection \<open>Tone adjustments\<close>

text \<open>
  One block \<^verbatim>\<open>if x != 1.0: adjusted = ImageEnhance.K(adjusted).enhance(x)\<close> of
  \<open>adjust\<close>, for the enhancer \<open>K\<close> and the slider value \<open>x\<close>.
\<close>

definition tone_stage :: "'img env \<Rightarrow> (real \<Rightarrow> prim) \<Rightarrow> real \<Rightarrow> 'img \<Rightarrow> exn + 'img" where
  "tone_stage env enhancer x adjusted =
     (if x \<noteq> 1 then pil env (enhancer x) adjusted else Inr adjusted)"

text \<open>
  The closure \<open>adjust\<close> of \<open>apply_adjustments\<close>: it starts from a copy of
  \<open>original_image\<close> and reads the three sliders when the worker runs it.
\<close>

definition adjust :: "'img env \<Rightarrow> 'img process_func" where
  "adjust env s =
     (case original_image s of
        None \<Rightarrow> Inl (AttributeError ''NoneType'')
      | Some orig \<Rightarrow>
          and_then (tone_stage env Brightness (brightness_var s) orig) (\<lambda>a1.
          and_then (tone_stage env Contrast (contrast_var s) a1) (\<lambda>a2.
          and_then (tone_stage env Color (saturation_var s) a2) (\<lambda>a3.
          Inr (Some a3)))))"

definition apply_adjustments :: "'img env \<Rightarrow> 'img session \<Rightarrow> 'img session" where
  "apply_adjustments env s =
     tk_callback
       (if original_image s = None then (None, s)
        else process_with_progress env ''Applying adjustments...'' (adjust env) s)"

text \<open>The closure \<open>enhance\<close> of \<open>auto_enhance\<close>: it starts from \<open>current_image\<close>.\<close>

definition enhance :: "'img env \<Rightarrow> 'img process_func" where
  "enhance env =
     on_current (\<lambda>enhanced.
       and_then (pil env (Contrast 1.2) enhanced) (\<lambda>e1.
       and_then (pil env (Color 1.1) e1) (\<lambda>e2.
       pil env (Sharpness 1.1) e2)))"

definition auto_enhance :: "'img env \<Rightarrow> 'img session \<Rightarrow> 'img session" where
  "auto_enhance env s =
     tk_callback
       (if current_image s \<noteq> None
        then process_with_progress env ''Auto enhancing...'' (enhance env) s
        else (None, s))"

subsection \<open>Filters and effects\<close>

text \<open>
  The handlers of the form
  \<^verbatim>\<open>if self.current_image: self.process_with_progress(msg, lambda: f(self.current_image))\<close>.
\<close>

definition apply_blur :: "'img env \<Rightarrow> 'img session \<Rightarrow> 'img session" where
  "apply_blur env s =
     tk_callback
       (if current_image s \<noteq> None
        then process_with_progress env ''Applying blur...''
               (on_current (pil env (GaussianBlur 2))) s
        else (None, s))"

definition apply_sharpen :: "'img env \<Rightarrow> 'img session \<Rightarrow> 'img session" where
  "apply_sharpen env s =
     tk_callback
       (if current_image s \<noteq> None
        then process_with_progress env ''Applying sharpen...''
               (on_current (pil env SHARPEN)) s
        else (None, s))"

definition apply_edge_enhance :: "'img env \<Rightarrow> 'img session \<Rightarrow> 'img session" where
  "apply_edge_enhance env s =
     tk_callback
       (if current_image s \<noteq> None
        then process_with_progress env ''Enhancing edges...''
               (on_current (pil env EDGE_ENHANCE)) s
        else (None, s))"

definition apply_emboss :: "'img env \<Rightarrow> 'img session \<Rightarrow> 'img session" where
  "apply_emboss env s =
     tk_callback
       (if current_image s \<noteq> None
        then process_with_progress env ''Applying emboss...''
               (on_current (pil env EMBOSS)) s
        else (None, s))"

definition apply_grayscale :: "'img env \<Rightarrow> 'img session \<Rightarrow> 'img session" where
  "apply_grayscale env s =
     tk_callback
       (if current_image s \<noteq> None
        then process_with_progress env ''Converting to grayscale...''
               (on_current (\<lambda>im. and_then (pil env ConvertL im) (pil env ConvertRGB))) s
        else (None, s))"

definition apply_sepia :: "'img env \<Rightarrow> 'img session \<Rightarrow> 'img session" where
  "apply_sepia env s =
     tk_callback
       (if current_image s \<noteq> None
        then process_with_progress env ''Applying sepia...''
               (on_current (pil env SepiaMatrix)) s
        else (None, s))"

definition apply_oil_painting :: "'img env \<Rightarrow> 'img session \<Rightarrow> 'img session" where
  "apply_oil_painting env s =
     tk_callback
       (if current_image s \<noteq> None
        then process_with_progress env ''Applying oil painting...''
               (on_current (\<lambda>im. and_then (pil env (GaussianBlur 1) im) (pil env (Posterize 4)))) s
        else (None, s))"

definition apply_posterize :: "'img env \<Rightarrow> 'img session \<Rightarrow> 'img session" where
  "apply_posterize env s =
     tk_callback
       (if current_image s \<noteq> None
        then process_with_progress env ''Applying posterize...''
               (on_current (pil env (Posterize 3))) s
        else (None, s))"

definition apply_psychedelic :: "'img env \<Rightarrow> 'img session \<Rightarrow> 'img session" where
  "apply_psychedelic env s =
     tk_callback
       (if current_image s \<noteq> None
        then process_with_progress env ''Applying psychedelic...''
               (on_current (pil env SinusoidRemap)) s
        else (None, s))"

definition apply_vintage :: "'img env \<Rightarrow> 'img session \<Rightarrow> 'img session" where
  "apply_vintage env s =
     tk_callback
       (if current_image s \<noteq> None
        then process_with_progress env ''Applying vintage...''
               (on_current (\<lambda>im. and_then (pil env SepiaMatrix im) (\<lambda>v.
                and_then (pil env (GaussianBlur 0.5) v) (pil env (Brightness 0.9))))) s
        else (None, s))"

definition apply_denoise :: "'img env \<Rightarrow> 'img session \<Rightarrow> 'img session" where
  "apply_denoise env s =
     tk_callback
       (if current_image s \<noteq> None
        then process_with_progress env ''Reducing noise...''
               (on_current (pil env (MedianFilter 3))) s
        else (None, s))"

definition histogram_equalization :: "'img env \<Rightarrow> 'img session \<Rightarrow> 'img session" where
  "histogram_equalization env s =
     tk_callback
       (if current_image s \<noteq> None
        then process_with_progress env ''Equalizing histogram...''
               (on_current (pil env Equalize)) s
        else (None, s))"

definition apply_unsharp_mask :: "'img env \<Rightarrow> 'img session \<Rightarrow> 'img session" where
  "apply_unsharp_mask env s =
     tk_callback
       (if current_image s \<noteq> None
        then process_with_progress env ''Applying unsharp mask...''
               (on_current (pil env (UnsharpMask 2 150 3))) s
        else (None, s))"

definition flip_horizontal :: "'img env \<Rightarrow> 'img session \<Rightarrow> 'img session" where
  "flip_horizontal env s =
     tk_callback
       (if current_image s \<noteq> None
        then process_with_progress env ''Flipping horizontally...''
               (on_current (pil env FlipLeftRight)) s
        else (None, s))"

text \<open>
  \<open>temp_adjust\<close> reads the temperature slider in the worker and scales the red and green
  channels when it is positive, the blue channel otherwise.
\<close>

definition temp_adjust :: "'img env \<Rightarrow> 'img process_func" where
  "temp_adjust env s =
     on_current (\<lambda>im.
       if temperature_var s > 0 then pil env (ScaleWarm (temperature_var s)) im
       else pil env (ScaleCool (temperature_var s)) im) s"

definition apply_temperature :: "'img env \<Rightarrow> 'img session \<Rightarrow> 'img session" where
  "apply_temperature env s =
     tk_callback
       (if current_image s \<noteq> None
        then process_with_progress env ''Adjusting temperature...'' (temp_adjust env) s
        else (None, s))"

definition rotate_image :: "'img env \<Rightarrow> int \<Rightarrow> 'img session \<Rightarrow> 'img session" where
  "rotate_image env angle s =
     tk_callback
       (if current_image s \<noteq> None
        then process_with_progress env
               (''Rotating '' @ str_of_int env angle @ [CHR 0xB0] @ ''...'')
               (on_current (pil env (Rotate angle))) s
        else (None, s))"

subsection \<open>Resize and watermark\<close>

text \<open>
  \<open>resize_image\<close>: \<open>int_of_str\<close> is the builtin \<open>int\<close> on the text of an entry, \<open>None\<close> when
  it raises ValueError. \<open>except ValueError\<close> covers the two conversions, the explicit
  raise and the call of \<open>process_with_progress\<close>; any other exception leaves the handler.
\<close>

definition invalid_dimensions :: "'img session \<Rightarrow> 'img session" where
  "invalid_dimensions s = log (ShowError ''Error'' ''Invalid dimensions!'') s"

definition resize_image :: "'img env \<Rightarrow> 'img session \<Rightarrow> 'img session" where
  "resize_image env s =
     (case current_image s of
        None \<Rightarrow> log (ShowWarning ''Warning'' ''No image loaded!'') s
      | Some _ \<Rightarrow>
          (case int_of_str env (width_var s) of
             None \<Rightarrow> invalid_dimensions s
           | Some width \<Rightarrow>
               (case int_of_str env (height_var s) of
                  None \<Rightarrow> invalid_dimensions s
                | Some height \<Rightarrow>
                    (if width \<le> 0 \<or> height \<le> 0 then invalid_dimensions s
                     else
                       (case process_with_progress env ''Resizing...''
                               (on_current (pil env (Resize width height))) s of
                          (Some (ValueError m), s1) \<Rightarrow> invalid_dimensions s1
                        | r \<Rightarrow> tk_callback r)))))"

text \<open>
  \<open>add_watermark\<close>: the text is stripped and checked when the button is pressed, the
  position is read by the closure; \<open>except Exception\<close> covers the whole body.
\<close>

definition add_watermark :: "'img env \<Rightarrow> 'img session \<Rightarrow> 'img session" where
  "add_watermark env s =
     (case current_image s of
        None \<Rightarrow> log (ShowWarning ''Warning'' ''No image loaded!'') s
      | Some _ \<Rightarrow>
          (let wtext = strip env (watermark_text s)
           in if wtext = [] then log (ShowWarning ''Warning'' ''Enter watermark text!'') s
              else
                (case process_with_progress env ''Adding watermark...''
                        (\<lambda>s'. on_current (pil env (Overlay wtext (watermark_position s'))) s') s of
                   (Some e, s1) \<Rightarrow>
                     log (ShowError ''Error'' (''Failed to add watermark: '' @ str e)) s1
                 | (None, s1) \<Rightarrow> s1)))"

subsection \<open>Export\<close>

fun join :: "string \<Rightarrow> string list \<Rightarrow> string" where
  "join sep [] = []"
| "join sep [x] = x"
| "join sep (x # y # ys) = x @ sep @ join sep (y # ys)"

text \<open>
  The body of the \<open>for fmt, ext in formats\<close> loop of \<open>export_all_formats\<close>, for one format:
  \<open>None\<close> when the file was written, the exception otherwise.
\<close>

definition export_one :: "'img env \<Rightarrow> 'img \<Rightarrow> string \<Rightarrow> string \<Rightarrow> exn option" where
  "export_one env im file_path fmt =
     (if fmt = ''JPEG'' \<and> image_mode env im = ''RGBA''
      then (case flatten_white env im of
              Inl e \<Rightarrow> Some e
            | Inr rgb_image \<Rightarrow> save env rgb_image file_path fmt (Some 95))
      else save env im file_path fmt None)"

text \<open>
  The loop itself. It has no \<open>try\<close> of its own: an exception leaves the loop with the
  formats exported so far.
\<close>

fun export_loop ::
  "'img env \<Rightarrow> string \<Rightarrow> string \<Rightarrow> 'img \<Rightarrow> (string \<times> string) list \<Rightarrow> string list \<Rightarrow>
   'img session \<Rightarrow> exn option \<times> string list \<times> 'img session" where
  "export_loop env folder base_name im [] exported s = (None, exported, s)"
| "export_loop env folder base_name im ((fmt, ext) # formats) exported s =
     (let file_path = path_join env folder (base_name @ ext)
      in case export_one env im file_path fmt of
           Some e \<Rightarrow> (Some e, exported, s)
         | None \<Rightarrow>
             export_loop env folder base_name im formats (exported @ [fmt])
               (log (FileSaved file_path fmt) s))"

definition formats :: "(string \<times> string) list" where
  "formats = [(''PNG'', ''.png''), (''JPEG'', ''.jpg''), (''WebP'', ''.webp'')]"

text \<open>
  The name the exported files share: \<open>stem\<close> is
  \<open>os.path.splitext(os.path.basename(p))[0]\<close>, used when \<open>image_path\<close> is set and not empty.
\<close>

definition export_base_name :: "'img env \<Rightarrow> 'img session \<Rightarrow> string" where
  "export_base_name env s =
     (case image_path s of
        None \<Rightarrow> ''exported_image''
      | Some p \<Rightarrow> if p = [] then ''exported_image'' else stem env p)"

text \<open>
  \<open>export_all_formats\<close>; \<open>folder\<close> is what the directory dialog returned (empty when
  cancelled). The \<open>try\<close> encloses the whole loop.
\<close>

definition export_all_formats :: "'img env \<Rightarrow> string \<Rightarrow> 'img session \<Rightarrow> 'img session" where
  "export_all_formats env folder s =
     (case current_image s of
        None \<Rightarrow> log (ShowWarning ''Warning'' ''No image loaded!'') s
      | Some im \<Rightarrow>
          (if folder = [] then s
           else
             (let base_name = export_base_name env s
              in case export_loop env folder base_name im formats [] s of
                   (Some e, exported, s1) \<Rightarrow>
                     log (ShowError ''Error'' (''Export failed: '' @ str e)) s1
                 | (None, exported, s1) \<Rightarrow>
                     log (ShowInfo ''Success''
                            (''Exported to '' @ folder @ [CHR 0x5C] @ ''n'' @ join '', '' exported))
                       (update_status
                          (''Exported '' @ str_of_int env (int (length exported)) @ '' formats'')
                          s1))))"

subsection \<open>Requests\<close>

text \<open>The effect operations of the tool, one constructor for each handler.\<close>

datatype effect =
    ApplyAdjustments
  | ApplyBlur
  | ApplySharpen
  | ApplyEdgeEnhance
  | ApplyEmboss
  | ApplyGrayscale
  | ApplySepia
  | ApplyOilPainting
  | ApplyPosterize
  | ApplyPsychedelic
  | ApplyVintage
  | ApplyTemperature
  | ApplyDenoise
  | HistogramEqualization
  | AutoEnhance
  | ApplyUnsharpMask
  | ResizeImage
  | RotateImage int
  | FlipHorizontal
  | AddWatermark

fun request :: "'img env \<Rightarrow> effect \<Rightarrow> 'img session \<Rightarrow> 'img session" where
  "request env ApplyAdjustments = apply_adjustments env"
| "request env ApplyBlur = apply_blur env"
| "request env ApplySharpen = apply_sharpen env"
| "request env ApplyEdgeEnhance = apply_edge_enhance env"
| "request env ApplyEmboss = apply_emboss env"
| "request env ApplyGrayscale = apply_grayscale env"
| "request env ApplySepia = apply_sepia env"
| "request env ApplyOilPainting = apply_oil_painting env"
| "request env ApplyPosterize = apply_posterize env"
| "request env ApplyPsychedelic = apply_psychedelic env"
| "request env ApplyVintage = apply_vintage env"
| "request env ApplyTemperature = apply_temperature env"
| "request env ApplyDenoise = apply_denoise env"
| "request env HistogramEqualization = histogram_equalization env"
| "request env AutoEnhance = auto_enhance env"
| "request env ApplyUnsharpMask = apply_unsharp_mask env"
| "request env ResizeImage = resize_image env"
| "request env (RotateImage angle) = rotate_image env angle"
| "request env FlipHorizontal = flip_horizontal env"
| "request env AddWatermark = add_watermark env"

text \<open>
  What the user can do to the widgets the handlers read: move a slider, type into an
  entry, choose a watermark position.
\<close>

datatype widget =
    BrightnessSlider real
  | ContrastSlider real
  | SaturationSlider real
  | TemperatureSlider real
  | WidthEntry string
  | HeightEntry string
  | WatermarkEntry string
  | PositionBox string

fun set_widget :: "widget \<Rightarrow> 'img session \<Rightarrow> 'img session" where
  "set_widget (BrightnessSlider x) s = s\<lparr>brightness_var := x\<rparr>"
| "set_widget (ContrastSlider x) s = s\<lparr>contrast_var := x\<rparr>"
| "set_widget (SaturationSlider x) s = s\<lparr>saturation_var := x\<rparr>"
| "set_widget (TemperatureSlider x) s = s\<lparr>temperature_var := x\<rparr>"
| "set_widget (WidthEntry t) s = s\<lparr>width_var := t\<rparr>"
| "set_widget (HeightEntry t) s = s\<lparr>height_var := t\<rparr>"
| "set_widget (WatermarkEntry t) s = s\<lparr>watermark_text := t\<rparr>"
| "set_widget (PositionBox t) s = s\<lparr>watermark_position := t\<rparr>"

text \<open>
  One user action on the session. \<open>Snapshot\<close> is a bare call of \<open>add_to_history\<close>;
  \<open>Zoom z\<close> stands for \<open>zoom_in\<close>, \<open>zoom_out\<close> and \<open>fit_to_window\<close>, which set the zoom
  factor to some value \<open>z\<close> and redraw.
\<close>

datatype action =
    Effect effect
  | Widget widget
  | Undo
  | Redo
  | Reset bool
  | Open string
  | ExportAll string
  | Snapshot
  | Zoom real

fun act :: "'img env \<Rightarrow> action \<Rightarrow> 'img session \<Rightarrow> 'img session" where
  "act env (Effect e) s = request env e s"
| "act env (Widget w) s = set_widget w s"
| "act env Undo s = undo env s"
| "act env Redo s = redo env s"
| "act env (Reset confirm) s = reset_image env confirm s"
| "act env (Open file_path) s = open_image env file_path s"
| "act env (ExportAll folder) s = export_all_formats env folder s"
| "act env Snapshot s = tk_callback (add_to_history s)"
| "act env (Zoom z) s = tk_callback (update_image_display env (s\<lparr>zoom_factor := z\<rparr>))"

text \<open>A sequence of actions, first action first.\<close>

definition run :: "'img env \<Rightarrow> action list \<Rightarrow> 'img session \<Rightarrow> 'img session" where
  "run env acts s = foldl (\<lambda>s a. act env a s) s acts"

subsection \<open>Relations and invariants used in the proofs\<close>

text \<open>
  What a handler can do to the image state: leave it as it is (\<open>stays\<close>), or snapshot the
  current image at the cursor and possibly replace it (\<open>pushes\<close>).
\<close>

definition stays :: "'img session \<Rightarrow> 'img session \<Rightarrow> bool" where
  "stays s s' \<longleftrightarrow>
     history s' = history s \<and> history_index s' = history_index s \<and>
     current_image s' = current_image s \<and> original_image s' = original_image s \<and>
     images_processed s' = images_processed s \<and>
     operations_performed s' = operations_performed s"

definition pushes :: "'img session \<Rightarrow> 'img session \<Rightarrow> bool" where
  "pushes s s' \<longleftrightarrow>
     (case current_image s of
        None \<Rightarrow> False
      | Some c \<Rightarrow>
          history s' = deque_append c (take (nat (history_index s + 1)) (history s)) \<and>
          history_index s' = int (length (history s')) - 1 \<and>
          current_image s' \<noteq> None \<and> original_image s' = original_image s \<and>
          images_processed s' = images_processed s)"

definition cursor_ok :: "'img session \<Rightarrow> bool" where
  "cursor_ok s \<longleftrightarrow>
     - 1 \<le> history_index s \<and> history_index s \<le> int (length (history s)) - 1 \<and>
     length (history s) \<le> maxlen"

fun is_effect :: "action \<Rightarrow> bool" where
  "is_effect (Effect e) = True"
| "is_effect a = False"

fun is_edit :: "action \<Rightarrow> bool" where
  "is_edit (Effect e) = True"
| "is_edit (Widget w) = True"
| "is_edit a = False"

definition loaded_inv :: "'img \<Rightarrow> nat \<Rightarrow> 'img session \<Rightarrow> bool" where
  "loaded_inv img p s \<longleftrightarrow>
     p \<le> 20 \<and>
     history_index s = int (length (history s)) - 1 \<and>
     length (history s) = min (p + 1) 20 \<and>
     hd (history s) = img \<and>
     (p = 0 \<longrightarrow> current_image s = Some img) \<and>
     (0 < p \<and> p < 20 \<longrightarrow> history s ! 1 = img) \<and>
     current_image s \<noteq> None"

text \<open>
  The condition \<open>resize_image\<close> checks before it dispatches: both entries convert to
  integers and both integers are positive.
\<close>

definition positive_dimensions :: "'img env \<Rightarrow> 'img session \<Rightarrow> bool" where
  "positive_dimensions env s =
     (case int_of_str env (width_var s) of
        None \<Rightarrow> False
      | Some width \<Rightarrow>
          (case int_of_str env (height_var s) of
             None \<Rightarrow> False
           | Some height \<Rightarrow> 0 < width \<and> 0 < height))"

subsection \<open>A sample environment\<close>

text \<open>
  A small library to run the model on: an image is a number, the file \<open>photo.jpg\<close> decodes
  to the image 5, \<open>ImageOps.equalize\<close> runs out of memory, and the file \<open>out/photo.png\<close>
  cannot be written. The sessions below are \<open>photo.jpg\<close> freshly loaded and some states
  of the history and the widgets on top of it.
\<close>

definition demo_env :: "nat env" where
  "demo_env =
     \<lparr> pil = (\<lambda>p im. case p of
                 Brightness x \<Rightarrow> Inr (im + 1)
               | Contrast x \<Rightarrow> Inr (2 * im)
               | Color x \<Rightarrow> Inr (im + 3)
               | Sharpness x \<Rightarrow> Inr (3 * im)
               | Equalize \<Rightarrow> Inl (OtherError ''not enough memory'')
               | Resize w h \<Rightarrow> Inr (nat (w * h))
               | _ \<Rightarrow> Inr (im + 10)),
       zoomed = (\<lambda>im z. Inr im),
       decode = (\<lambda>p. if p = ''photo.jpg'' then Inr 5
                      else Inl (OtherError ''cannot identify image file'')),
       image_size = (\<lambda>im. (int im, 1)),
       image_mode = (\<lambda>im. ''RGB''),
       flatten_white = Inr,
       save = (\<lambda>im file_path fmt quality.
                 if file_path = ''out/photo.png'' then Some (OtherError ''Permission denied'')
                 else None),
       getsize = (\<lambda>p. Inr 2048),
       basename = id,
       stem = takeWhile (\<lambda>c. c \<noteq> CHR ''.''),
       path_join = (\<lambda>d f. d @ ''/'' @ f),
       int_of_str = map_of [(''0'', 0), (''640'', 640), (''480'', 480)],
       str_of_int = (\<lambda>n. ''#''),
       strip = id \<rparr>"

definition demo_loaded :: "nat session" where
  "demo_loaded = open_image demo_env ''photo.jpg'' init"

definition demo_full :: "nat session" where
  "demo_full =
     demo_loaded\<lparr>current_image := Some 20,
                 history := [0, 1, 2, 3, 4, 5, 6, 7, 8, 9, 10, 11, 12, 13, 14, 15, 16, 17, 18, 19],
                 history_index := 19\<rparr>"

definition demo_undone :: "nat session" where
  "demo_undone = demo_loaded\<lparr>history := [5, 15, 25], history_index := 0\<rparr>"

definition demo_sliders :: "nat session" where
  "demo_sliders =
     demo_loaded\<lparr>current_image := Some 15, history := [5, 5], history_index := 1,
                 brightness_var := 2, contrast_var := 1.5, saturation_var := 0.5\<rparr>"

definition demo_edited :: "nat session" where
  "demo_edited = demo_loaded\<lparr>current_image := Some 15, history := [5, 5], history_index := 1\<rparr>"

text \<open>The part of a session the history claims speak about.\<close>

definition image_state :: "'img session \<Rightarrow> 'img option \<times> 'img list \<times> int \<times> real" where
  "image_state s = (current_image s, history s, history_index s, zoom_factor s)"

definition demo_zero_width :: "nat session" where
  "demo_zero_width = demo_loaded\<lparr>width_var := ''0'', height_var := ''480''\<rparr>"

section \<open>The sample session\<close>

lemma demo_loaded_eq:
  "demo_loaded =
     \<lparr> current_image = Some 5, original_image = Some 5, image_path = Some ''photo.jpg'',
       history = [5], history_index = 0, zoom_factor = 1, photo = Some 5,
       brightness_var = 1, contrast_var = 1, saturation_var = 1, temperature_var = 0,
       width_var = ''#'', height_var = ''#'',
       watermark_text = [CHR 0xA9] @ '' Your Name'', watermark_position = ''bottom-right'',
       images_processed = 1, operations_performed = 0,
       events = [Status ''Loaded: photo.jpg''] \<rparr>"
  by (simp add: demo_loaded_def open_image_def demo_env_def init_def Let_def
        update_image_display_def update_status_def log_def deque_append_def maxlen_def)

section \<open>The history\<close>

subsection \<open>Snapshots\<close>

lemma pop_loop_within: "k \<le> length xs \<Longrightarrow> pop_loop k xs = (None, take (length xs - k) xs)"
proof (induction k arbitrary: xs)
  case 0
  then show ?case by simp
next
  case (Suc k)
  then have "xs \<noteq> []" and "k \<le> length (butlast xs)" by auto
  with Suc.IH [of "butlast xs"] show ?case
    by (simp add: butlast_conv_take min_def)
qed

lemma add_to_history_no_image: "current_image s = None \<Longrightarrow> add_to_history s = (None, s)"
  by (simp add: add_to_history_def)

lemma add_to_history_snapshot:
  assumes "current_image s = Some c" and "- 1 \<le> history_index s"
  shows "add_to_history s =
           (None, s\<lparr>history := deque_append c (take (nat (history_index s + 1)) (history s)),
                    history_index :=
                      int (length (deque_append c (take (nat (history_index s + 1)) (history s)))) - 1\<rparr>)"
proof (cases "history_index s < int (length (history s)) - 1")
  case True
  then have k: "nat (int (length (history s)) - history_index s - 1) \<le> length (history s)"
    using assms(2) by simp
  have "length (history s) - nat (int (length (history s)) - history_index s - 1)
          = nat (history_index s + 1)"
    using True assms(2) by simp
  with pop_loop_within [OF k] True assms(1) show ?thesis
    by (simp add: add_to_history_def Let_def)
next
  case False
  then have "take (nat (history_index s + 1)) (history s) = history s" by simp
  with False assms(1) show ?thesis
    by (simp add: add_to_history_def Let_def)
qed

lemma tk_callback_quiet: "fst p = None \<Longrightarrow> tk_callback p = snd p"
  by (cases p) simp

lemma update_image_display_core:
  "history (snd (update_image_display env s)) = history s"
  "history_index (snd (update_image_display env s)) = history_index s"
  "current_image (snd (update_image_display env s)) = current_image s"
  "original_image (snd (update_image_display env s)) = original_image s"
  "images_processed (snd (update_image_display env s)) = images_processed s"
  "operations_performed (snd (update_image_display env s)) = operations_performed s"
  "brightness_var (snd (update_image_display env s)) = brightness_var s"
  "contrast_var (snd (update_image_display env s)) = contrast_var s"
  "saturation_var (snd (update_image_display env s)) = saturation_var s"
  by (simp_all add: update_image_display_def split: option.splits sum.splits)

lemma tk_callback_core:
  "history (tk_callback p) = history (snd p)"
  "history_index (tk_callback p) = history_index (snd p)"
  "current_image (tk_callback p) = current_image (snd p)"
  "original_image (tk_callback p) = original_image (snd p)"
  "images_processed (tk_callback p) = images_processed (snd p)"
  "operations_performed (tk_callback p) = operations_performed (snd p)"
  "brightness_var (tk_callback p) = brightness_var (snd p)"
  "contrast_var (tk_callback p) = contrast_var (snd p)"
  "saturation_var (tk_callback p) = saturation_var (snd p)"
  by (cases p; cases "fst p"; simp add: log_def)+

lemma run_process_core:
  "history (run_process env f s) = history s"
  "history_index (run_process env f s) = history_index s"
  "original_image (run_process env f s) = original_image s"
  "images_processed (run_process env f s) = images_processed s"
  "current_image s \<noteq> None \<Longrightarrow> current_image (run_process env f s) \<noteq> None"
  by (simp_all add: run_process_def processing_failed_def Let_def log_def update_status_def tk_callback_core
        update_image_display_core split: sum.splits option.splits)

lemma process_with_progress_no_image:
  "current_image s = None \<Longrightarrow> process_with_progress env msg f s = (None, s)"
  by (simp add: process_with_progress_def)

lemma process_with_progress_pushes:
  assumes "current_image s = Some c" and "- 1 \<le> history_index s"
  shows "fst (process_with_progress env msg f s) = None"
    and "pushes s (snd (process_with_progress env msg f s))"
  using assms
  by (simp_all add: process_with_progress_def add_to_history_snapshot pushes_def
        run_process_core log_def update_status_def)


lemma process_with_progress_dispatch:
  assumes "current_image s = Some c" and "- 1 \<le> history_index s"
  shows "process_with_progress env msg f s =
           (None, run_process env f (log ThreadStarted (update_status msg (snd (add_to_history s)))))"
  using assms by (simp add: process_with_progress_def add_to_history_snapshot)

lemma stays_refl: "stays s s"
  by (simp add: stays_def)

lemma dispatch_stays_or_pushes:
  assumes "- 1 \<le> history_index s"
  shows "stays s (tk_callback (process_with_progress env msg f s)) \<or>
         pushes s (tk_callback (process_with_progress env msg f s))"
proof (cases "current_image s")
  case None
  then show ?thesis
    by (simp add: process_with_progress_no_image stays_refl)
next
  case (Some c)
  from process_with_progress_pushes [OF Some assms, of env msg f] show ?thesis
    by (simp add: tk_callback_quiet)
qed

lemma guarded_stays_or_pushes:
  assumes "- 1 \<le> history_index s"
  shows "stays s (tk_callback (if current_image s \<noteq> None
                               then process_with_progress env msg f s else (None, s))) \<or>
         pushes s (tk_callback (if current_image s \<noteq> None
                                then process_with_progress env msg f s else (None, s)))"
  using dispatch_stays_or_pushes [OF assms, of env msg f]
  by (simp add: stays_refl)

lemma apply_adjustments_stays_or_pushes:
  assumes "- 1 \<le> history_index s"
  shows "stays s (apply_adjustments env s) \<or> pushes s (apply_adjustments env s)"
  using dispatch_stays_or_pushes [OF assms, of env "''Applying adjustments...''" "adjust env"]
  by (simp add: apply_adjustments_def stays_refl)

lemma stays_log: "stays s (log e s)"
  by (simp add: stays_def log_def)

lemma resize_image_stays_or_pushes:
  assumes "- 1 \<le> history_index s"
  shows "stays s (resize_image env s) \<or> pushes s (resize_image env s)"
proof (cases "current_image s")
  case None
  then show ?thesis by (simp add: resize_image_def stays_log)
next
  case (Some c)
  show ?thesis
  proof (cases "\<exists>w h. int_of_str env (width_var s) = Some w \<and>
                       int_of_str env (height_var s) = Some h \<and> 0 < w \<and> 0 < h")
    case True
    then obtain w h where wh: "int_of_str env (width_var s) = Some w"
      "int_of_str env (height_var s) = Some h" "0 < w" "0 < h" by blast
    let ?r = "process_with_progress env ''Resizing...'' (on_current (pil env (Resize w h))) s"
    from process_with_progress_pushes [OF Some assms]
    have "fst ?r = None" and p: "pushes s (snd ?r)" by blast+
    then have "resize_image env s = snd ?r"
      using Some wh by (cases ?r) (simp add: resize_image_def)
    with p show ?thesis by simp
  next
    case False
    then have "resize_image env s = invalid_dimensions s"
      using Some by (cases "int_of_str env (width_var s)"; cases "int_of_str env (height_var s)")
        (auto simp: resize_image_def)
    then show ?thesis by (simp add: invalid_dimensions_def stays_log)
  qed
qed

lemma add_watermark_stays_or_pushes:
  assumes "- 1 \<le> history_index s"
  shows "stays s (add_watermark env s) \<or> pushes s (add_watermark env s)"
proof (cases "current_image s")
  case None
  then show ?thesis by (simp add: add_watermark_def stays_log)
next
  case (Some c)
  show ?thesis
  proof (cases "strip env (watermark_text s) = []")
    case True
    with Some show ?thesis by (simp add: add_watermark_def stays_log)
  next
    case False
    let ?r = "process_with_progress env ''Adding watermark...''
                (\<lambda>s'. on_current (pil env (Overlay (strip env (watermark_text s))
                                             (watermark_position s'))) s') s"
    from process_with_progress_pushes [OF Some assms]
    have "fst ?r = None" and p: "pushes s (snd ?r)" by blast+
    then have "add_watermark env s = snd ?r"
      using Some False by (cases ?r) (simp add: add_watermark_def Let_def)
    with p show ?thesis by simp
  qed
qed

lemmas guarded_handler_defs =
  apply_blur_def apply_sharpen_def apply_edge_enhance_def apply_emboss_def
  apply_grayscale_def apply_sepia_def apply_oil_painting_def apply_posterize_def
  apply_psychedelic_def apply_vintage_def apply_denoise_def histogram_equalization_def
  apply_unsharp_mask_def flip_horizontal_def apply_temperature_def rotate_image_def
  auto_enhance_def

lemma request_stays_or_pushes:
  assumes "- 1 \<le> history_index s"
  shows "stays s (request env e s) \<or> pushes s (request env e s)"
proof (cases e)
  case ApplyAdjustments
  then show ?thesis using apply_adjustments_stays_or_pushes [OF assms] by simp
next
  case ResizeImage
  then show ?thesis using resize_image_stays_or_pushes [OF assms] by simp
next
  case AddWatermark
  then show ?thesis using add_watermark_stays_or_pushes [OF assms] by simp
qed (simp_all only: request.simps guarded_handler_defs guarded_stays_or_pushes [OF assms])


subsection \<open>Undo and redo\<close>

lemma deque_get_in_range:
  "0 \<le> i \<Longrightarrow> i < int (length xs) \<Longrightarrow> deque_get xs i = Inr (xs ! nat i)"
  by (simp add: deque_get_def)

lemma deque_get_member: "deque_get xs i = Inr x \<Longrightarrow> x \<in> set xs"
  by (auto simp: deque_get_def split: if_splits)

lemma undo_at_start: "history_index s \<le> 0 \<Longrightarrow> undo env s = s"
  by (simp add: undo_def)

lemma undo_in_range:
  assumes "0 < history_index s" and "history_index s \<le> int (length (history s))"
  shows "history (undo env s) = history s"
    and "history_index (undo env s) = history_index s - 1"
    and "current_image (undo env s) = Some (history s ! nat (history_index s - 1))"
  using assms
  by (simp_all add: undo_def Let_def deque_get_in_range update_status_def log_def
        update_image_display_def split: sum.splits)

lemma funpow_fixed: "f x = x \<Longrightarrow> (f ^^ k) x = x"
  by (induction k) simp_all

lemma undo_to_start:
  assumes "0 < history_index s" and "history_index s < int (length (history s))"
    and "history_index s \<le> int k"
  shows "current_image ((undo env ^^ k) s) = Some (history s ! 0)"
  using assms
proof (induction k arbitrary: s)
  case 0
  then show ?case by simp
next
  case (Suc k)
  let ?s1 = "undo env s"
  from Suc.prems have r: "0 < history_index s" "history_index s \<le> int (length (history s))"
    by simp_all
  note u = undo_in_range [OF r, of env]
  have step: "(undo env ^^ Suc k) s = (undo env ^^ k) ?s1"
    by (simp add: funpow_swap1)
  show ?case
  proof (cases "history_index s = 1")
    case True
    then have "undo env ?s1 = ?s1" using u by (simp add: undo_at_start)
    then have "(undo env ^^ k) ?s1 = ?s1" by (rule funpow_fixed)
    with step u True show ?thesis by simp
  next
    case False
    with Suc.prems u have "0 < history_index ?s1"
      "history_index ?s1 < int (length (history ?s1))" "history_index ?s1 \<le> int k"
      by simp_all
    from Suc.IH [OF this] step u show ?thesis by simp
  qed
qed

subsection \<open>Edits after a load\<close>

lemma open_image_loaded:
  assumes "file_path \<noteq> []" and "decode env file_path = Inr img"
    and "getsize env file_path = Inr sz"
  shows "history (open_image env file_path s) = [img]"
    and "history_index (open_image env file_path s) = 0"
    and "current_image (open_image env file_path s) = Some img"
    and "original_image (open_image env file_path s) = Some img"
  using assms
  by (simp_all add: open_image_def Let_def update_image_display_def update_status_def
        log_def deque_append_def maxlen_def)

lemma loaded_inv_start:
  "history s = [img] \<Longrightarrow> history_index s = 0 \<Longrightarrow> current_image s = Some img \<Longrightarrow>
   loaded_inv img 0 s"
  by (simp add: loaded_inv_def)

lemma loaded_inv_stays: "stays s s' \<Longrightarrow> loaded_inv img p s \<Longrightarrow> loaded_inv img p s'"
  by (simp add: stays_def loaded_inv_def)

lemma loaded_inv_pushes:
  assumes "pushes s s'" and "loaded_inv img p s" and "p < 20"
  shows "loaded_inv img (Suc p) s'"
proof -
  from assms(2) obtain c where c: "current_image s = Some c"
    by (auto simp: loaded_inv_def)
  from assms(2) have tail: "take (nat (history_index s + 1)) (history s) = history s"
    by (simp add: loaded_inv_def)
  from assms(1) c tail have h: "history s' = deque_append c (history s)"
    and i: "history_index s' = int (length (history s')) - 1"
    and n: "current_image s' \<noteq> None"
    by (simp_all add: pushes_def)
  from assms(2,3) have len: "length (history s) = p + 1" and hd: "hd (history s) = img"
    and first: "p = 0 \<longrightarrow> c = img" and second: "0 < p \<longrightarrow> history s ! 1 = img"
    using c by (simp_all add: loaded_inv_def)
  show ?thesis
  proof (cases "p = 19")
    case True
    with len have full: "length (history s) = maxlen" by (simp add: maxlen_def)
    with h have h': "history s' = tl (history s) @ [c]" by (simp add: deque_append_def)
    from len True second have "hd (tl (history s)) = img"
      by (cases "history s"; cases "tl (history s)") auto
    moreover from len True have "tl (history s) \<noteq> []"
      by (cases "history s") auto
    ultimately show ?thesis using True h' i n len
      by (simp add: loaded_inv_def)
  next
    case False
    with len assms(3) have "length (history s) \<noteq> maxlen" by (simp add: maxlen_def)
    with h have h': "history s' = history s @ [c]" by (simp add: deque_append_def)
    from len have ne: "history s \<noteq> []" by auto
    have "history s' ! 1 = img"
    proof (cases "p = 0")
      case True
      with len first h' show ?thesis by (cases "history s") auto
    next
      case False
      with len second h' show ?thesis by (simp add: nth_append)
    qed
    with h' i n len hd ne False assms(3) show ?thesis
      by (simp add: loaded_inv_def)
  qed
qed

lemma stays_set_widget: "stays s (set_widget w s)"
  by (cases w) (simp_all add: stays_def)

lemma loaded_inv_cursor: "loaded_inv img p s \<Longrightarrow> - 1 \<le> history_index s"
  by (simp add: loaded_inv_def)

lemma run_Cons: "run env (a # acts) s = run env acts (act env a s)"
  by (simp add: run_def)

lemma loaded_inv_run:
  assumes "list_all is_edit acts" and "loaded_inv img p s"
    and "p + length (filter is_effect acts) \<le> 20"
  shows "\<exists>q. q \<le> p + length (filter is_effect acts) \<and> loaded_inv img q (run env acts s)"
  using assms
proof (induction acts arbitrary: s p)
  case Nil
  then show ?case by (auto simp: run_def)
next
  case (Cons a acts)
  show ?case
  proof (cases a)
    case (Effect e)
    with Cons.prems have p: "p < 20" and rest: "Suc p + length (filter is_effect acts) \<le> 20"
      and edits: "list_all is_edit acts" by simp_all
    from request_stays_or_pushes [OF loaded_inv_cursor [OF Cons.prems(2)], of env e]
    show ?thesis
    proof
      assume "stays s (request env e s)"
      then have "loaded_inv img p (act env a s)"
        using Effect Cons.prems(2) by (simp add: loaded_inv_stays)
      from Cons.IH [OF edits this] rest obtain q
        where "q \<le> p + length (filter is_effect acts)" "loaded_inv img q (run env acts (act env a s))"
        by auto
      then have "q \<le> p + length (filter is_effect (a # acts)) \<and>
                 loaded_inv img q (run env (a # acts) s)"
        using Effect by (simp add: run_Cons)
      then show ?thesis by blast
    next
      assume "pushes s (request env e s)"
      then have "loaded_inv img (Suc p) (act env a s)"
        using Effect Cons.prems(2) p by (simp add: loaded_inv_pushes)
      from Cons.IH [OF edits this rest] obtain q
        where "q \<le> Suc p + length (filter is_effect acts)"
          "loaded_inv img q (run env acts (act env a s))"
        by auto
      then have "q \<le> p + length (filter is_effect (a # acts)) \<and>
                 loaded_inv img q (run env (a # acts) s)"
        using Effect by (simp add: run_Cons)
      then show ?thesis by blast
    qed
  next
    case (Widget w)
    with Cons.prems have edits: "list_all is_edit acts"
      and rest: "p + length (filter is_effect acts) \<le> 20" by simp_all
    have "loaded_inv img p (act env a s)"
      using Widget loaded_inv_stays [OF stays_set_widget Cons.prems(2)] by simp
    from Cons.IH [OF edits this rest] show ?thesis using Widget by (simp add: run_Cons)
  qed (use Cons.prems in simp_all)
qed

lemma loaded_inv_undo:
  assumes "loaded_inv img q s" and "q \<le> k"
  shows "current_image ((undo env ^^ k) s) = Some img"
proof (cases "q = 0")
  case True
  with assms(1) have "history_index s = 0" "current_image s = Some img"
    by (simp_all add: loaded_inv_def)
  then show ?thesis by (simp add: funpow_fixed undo_at_start)
next
  case False
  from assms(1) have "history s \<noteq> []" by (auto simp: loaded_inv_def)
  with assms(1) have "history s ! 0 = img" by (simp add: loaded_inv_def hd_conv_nth)
  moreover from False assms have "0 < history_index s"
    "history_index s < int (length (history s))" "history_index s \<le> int k"
    by (auto simp: loaded_inv_def min_def split: if_splits)
  ultimately show ?thesis using undo_to_start [of s k env] by simp
qed

text \<open>
  Claim C1. After a successful load of an image \<open>img\<close>, let the user request any sequence
  of effect operations, changing sliders and entries in between as they like. If the
  sequence holds \<open>N \<le> 20\<close> effect operations, then \<open>N\<close> calls of \<open>undo\<close> leave
  \<open>current_image\<close> equal to \<open>img\<close>. This holds whatever the library does: an operation
  may succeed, raise in the worker, or be rejected before dispatch.
\<close>

theorem undo_returns_to_load:
  assumes "file_path \<noteq> []" and "decode env file_path = Inr img"
    and "getsize env file_path = Inr sz"
    and "list_all is_edit acts" and "length (filter is_effect acts) \<le> 20"
  shows "current_image
           ((undo env ^^ length (filter is_effect acts))
              (run env acts (open_image env file_path s))) = Some img"
proof -
  let ?s0 = "open_image env file_path s"
  have "loaded_inv img 0 ?s0"
    using open_image_loaded [OF assms(1-3), of s] by (simp add: loaded_inv_start)
  from loaded_inv_run [OF assms(4) this, of env] assms(5) obtain q
    where "q \<le> length (filter is_effect acts)" "loaded_inv img q (run env acts ?s0)"
    by auto
  then show ?thesis by (simp add: loaded_inv_undo)
qed


theorem undo_returns_to_load_witness:
  "''photo.jpg'' \<noteq> [] \<and> decode demo_env ''photo.jpg'' = Inr 5 \<and>
   getsize demo_env ''photo.jpg'' = Inr 2048 \<and>
   list_all is_edit [Effect ApplyBlur, Widget (BrightnessSlider 2), Effect ApplyAdjustments] \<and>
   length (filter is_effect
             [Effect ApplyBlur, Widget (BrightnessSlider 2), Effect ApplyAdjustments]) \<le> 20 \<and>
   current_image
     ((undo demo_env ^^ 2)
        (run demo_env [Effect ApplyBlur, Widget (BrightnessSlider 2), Effect ApplyAdjustments]
           (open_image demo_env ''photo.jpg'' init))) = Some 5"
proof -
  let ?acts = "[Effect ApplyBlur, Widget (BrightnessSlider 2), Effect ApplyAdjustments]"
  have d: "decode demo_env ''photo.jpg'' = Inr 5" "getsize demo_env ''photo.jpg'' = Inr 2048"
    by (simp_all add: demo_env_def)
  have n: "length (filter is_effect ?acts) = 2" by simp
  have "current_image
          ((undo demo_env ^^ length (filter is_effect ?acts))
             (run demo_env ?acts (open_image demo_env ''photo.jpg'' init))) = Some 5"
    by (rule undo_returns_to_load [OF _ d]) simp_all
  then have "current_image
          ((undo demo_env ^^ 2) (run demo_env ?acts (open_image demo_env ''photo.jpg'' init)))
          = Some 5"
    by (simp only: n)
  with d show ?thesis by simp
qed


subsection \<open>The capacity of the history\<close>

lemma length_deque_append: "length xs \<le> maxlen \<Longrightarrow> length (deque_append x xs) \<le> maxlen"
  by (auto simp: deque_append_def maxlen_def)

lemma deque_append_nonempty: "0 < length (deque_append x xs)"
  by (simp add: deque_append_def)

lemma cursor_ok_stays: "stays s s' \<Longrightarrow> cursor_ok s \<Longrightarrow> cursor_ok s'"
  by (simp add: stays_def cursor_ok_def)

lemma cursor_ok_pushes:
  assumes "pushes s s'" and "cursor_ok s"
  shows "cursor_ok s'"
proof -
  from assms(1) obtain c where c: "current_image s = Some c"
    by (auto simp: pushes_def split: option.splits)
  let ?h = "take (nat (history_index s + 1)) (history s)"
  from assms(2) have "length ?h \<le> maxlen" by (auto simp: cursor_ok_def)
  from length_deque_append [OF this, of c] deque_append_nonempty [of c ?h] assms(1) c
  show ?thesis by (simp add: pushes_def cursor_ok_def)
qed

lemma cursor_ok_request: "cursor_ok s \<Longrightarrow> cursor_ok (request env e s)"
  using request_stays_or_pushes [of s env e] cursor_ok_stays cursor_ok_pushes
  by (auto simp: cursor_ok_def)

lemma history_undo: "history (undo env s) = history s"
  by (simp add: undo_def Let_def update_status_def log_def tk_callback_core
        update_image_display_def split: sum.splits prod.splits option.splits)

lemma cursor_ok_undo: "cursor_ok s \<Longrightarrow> cursor_ok (undo env s)"
proof (cases "0 < history_index s")
  case True
  assume "cursor_ok s"
  with True undo_in_range [of s env] show ?thesis by (simp add: cursor_ok_def)
next
  case False
  assume "cursor_ok s"
  with False show ?thesis by (simp add: undo_at_start)
qed

lemma redo_at_tail: "int (length (history s)) - 1 \<le> history_index s \<Longrightarrow> redo env s = s"
  by (simp add: redo_def)

lemma redo_in_range:
  assumes "- 1 \<le> history_index s" and "history_index s < int (length (history s)) - 1"
  shows "history (redo env s) = history s"
    and "history_index (redo env s) = history_index s + 1"
    and "current_image (redo env s) = Some (history s ! nat (history_index s + 1))"
  using assms
  by (simp_all add: redo_def Let_def deque_get_in_range update_status_def log_def
        update_image_display_def split: sum.splits)

lemma cursor_ok_redo: "cursor_ok s \<Longrightarrow> cursor_ok (redo env s)"
proof (cases "history_index s < int (length (history s)) - 1")
  case True
  assume "cursor_ok s"
  with True redo_in_range [of s env] show ?thesis by (simp add: cursor_ok_def)
next
  case False
  assume "cursor_ok s"
  with False show ?thesis by (simp add: redo_at_tail)
qed

lemma cursor_ok_reset: "cursor_ok s \<Longrightarrow> cursor_ok (reset_image env confirm s)"
  by (simp add: reset_image_def Let_def cursor_ok_def update_image_display_def
        update_status_def log_def deque_append_def maxlen_def split: option.splits)

lemma cursor_ok_open: "cursor_ok s \<Longrightarrow> cursor_ok (open_image env file_path s)"
  by (simp add: open_image_def open_failed_def Let_def cursor_ok_def update_image_display_def
        update_status_def log_def deque_append_def maxlen_def split: sum.splits)

lemma export_loop_core:
  "history (snd (snd (export_loop env folder base im fs exported s))) = history s"
  "history_index (snd (snd (export_loop env folder base im fs exported s))) = history_index s"
  "current_image (snd (snd (export_loop env folder base im fs exported s))) = current_image s"
  "original_image (snd (snd (export_loop env folder base im fs exported s))) = original_image s"
  "images_processed (snd (snd (export_loop env folder base im fs exported s))) = images_processed s"
  "operations_performed (snd (snd (export_loop env folder base im fs exported s)))
     = operations_performed s"
  by (induction env folder base im fs exported s rule: export_loop.induct;
      simp add: Let_def log_def split: option.splits)+

lemma stays_export: "stays s (export_all_formats env folder s)"
proof (cases "current_image s")
  case None
  then show ?thesis by (simp add: export_all_formats_def stays_log)
next
  case (Some im)
  show ?thesis
  proof (cases "folder = []")
    case True
    with Some show ?thesis by (simp add: export_all_formats_def stays_refl)
  next
    case False
    define base_name where "base_name = export_base_name env s"
    obtain r exported s1
      where loop: "export_loop env folder base_name im formats [] s = (r, exported, s1)"
      by (cases "export_loop env folder base_name im formats [] s") auto
    from export_loop_core [of env folder base_name im formats "[]" s] loop
    have "stays s s1" by (simp add: stays_def)
    with Some False loop show ?thesis
      by (cases r)
        (simp_all add: export_all_formats_def base_name_def stays_def log_def update_status_def)
  qed
qed

lemma cursor_ok_snapshot: "cursor_ok s \<Longrightarrow> cursor_ok (tk_callback (add_to_history s))"
proof (cases "current_image s")
  case None
  assume "cursor_ok s"
  with None show ?thesis by (simp add: add_to_history_no_image)
next
  case (Some c)
  assume ok: "cursor_ok s"
  then have "- 1 \<le> history_index s"
    and "length (take (nat (history_index s + 1)) (history s)) \<le> maxlen"
    by (auto simp: cursor_ok_def)
  with add_to_history_snapshot [OF Some]
    length_deque_append [of "take (nat (history_index s + 1)) (history s)" c]
    deque_append_nonempty [of c "take (nat (history_index s + 1)) (history s)"]
  show ?thesis by (simp add: cursor_ok_def)
qed

lemma cursor_ok_act: "cursor_ok s \<Longrightarrow> cursor_ok (act env a s)"
proof (cases a)
  case (Widget w)
  assume "cursor_ok s"
  with Widget cursor_ok_stays [OF stays_set_widget] show ?thesis by simp
next
  case (ExportAll folder)
  assume "cursor_ok s"
  with ExportAll cursor_ok_stays [OF stays_export] show ?thesis by simp
next
  case (Zoom z)
  assume "cursor_ok s"
  with Zoom show ?thesis
    by (simp add: cursor_ok_def tk_callback_core update_image_display_core)
qed (simp_all add: cursor_ok_request cursor_ok_undo cursor_ok_redo cursor_ok_reset
       cursor_ok_open cursor_ok_snapshot)

lemma cursor_ok_run: "cursor_ok s \<Longrightarrow> cursor_ok (run env acts s)"
  by (induction acts arbitrary: s) (simp_all add: run_def cursor_ok_act)

lemma cursor_ok_init: "cursor_ok init"
  by (simp add: cursor_ok_def init_def)

lemma current_undo:
  "current_image (undo env s) = current_image s \<or>
   current_image (undo env s) \<in> Some ` set (history s)"
  by (auto simp: undo_def Let_def update_status_def log_def update_image_display_def
        dest: deque_get_member split: sum.splits)

lemma undo_reaches:
  "history ((undo env ^^ k) s) = history s \<and>
   (current_image ((undo env ^^ k) s) = current_image s \<or>
    current_image ((undo env ^^ k) s) \<in> Some ` set (history s))"
proof (induction k)
  case 0
  then show ?case by simp
next
  case (Suc k)
  with current_undo [where env = env and s = "(undo env ^^ k) s"] show ?case
    by (auto simp: history_undo)
qed

text \<open>
  The first eviction of a session. \<open>open_image\<close> seeds the history with the loaded image
  and the first operation snapshots that same image again, so the history starts with two
  equal entries. After \<open>photo.jpg\<close> (the image 5) and 19 blurs the history is full; the
  20th blur evicts the seed, and 19 calls of \<open>undo\<close> still make the image 5 current: the
  evicted entry's image is reached through its duplicate.
\<close>

lemma blur_step:
  assumes "current_image s = Some c" and "history_index s = int (length (history s)) - 1"
    and "zoom_factor s = 1"
  shows "current_image (request demo_env ApplyBlur s) = Some (c + 10)"
    and "history (request demo_env ApplyBlur s) = deque_append c (history s)"
    and "history_index (request demo_env ApplyBlur s)
           = int (length (deque_append c (history s))) - 1"
  using assms
  by (simp_all add: apply_blur_def process_with_progress_def add_to_history_def
        run_process_def on_current_def and_then_def update_image_display_def demo_env_def
        log_def update_status_def Let_def)

lemma nineteen_blurs:
  "image_state (run demo_env (replicate 19 (Effect ApplyBlur)) demo_loaded)
     = (Some 195,
        [5, 5, 15, 25, 35, 45, 55, 65, 75, 85, 95, 105, 115, 125, 135, 145, 155, 165, 175, 185],
        19, 1)"
  by (simp add: run_def eval_nat_numeral apply_blur_def process_with_progress_def
        add_to_history_def run_process_def on_current_def and_then_def update_image_display_def
        demo_env_def log_def update_status_def Let_def demo_loaded_eq deque_append_def
        maxlen_def image_state_def)

lemma twenty_blurs:
  "run demo_env (replicate 20 (Effect ApplyBlur)) demo_loaded
     = request demo_env ApplyBlur (run demo_env (replicate 19 (Effect ApplyBlur)) demo_loaded)"
proof -
  have "replicate 20 (Effect ApplyBlur) = replicate 19 (Effect ApplyBlur) @ [Effect ApplyBlur]"
    by (simp add: eval_nat_numeral)
  then show ?thesis by (simp add: run_def)
qed

theorem first_eviction_is_undone:
  "history (run demo_env (replicate 19 (Effect ApplyBlur)) demo_loaded)
     = [5, 5, 15, 25, 35, 45, 55, 65, 75, 85, 95, 105, 115, 125, 135, 145, 155, 165, 175, 185] \<and>
   history (run demo_env (replicate 20 (Effect ApplyBlur)) demo_loaded)
     = [5, 15, 25, 35, 45, 55, 65, 75, 85, 95, 105, 115, 125, 135, 145, 155, 165, 175, 185, 195] \<and>
   current_image
     ((undo demo_env ^^ 19) (run demo_env (replicate 20 (Effect ApplyBlur)) demo_loaded))
     = Some 5"
proof -
  let ?s19 = "run demo_env (replicate 19 (Effect ApplyBlur)) demo_loaded"
  let ?s20 = "run demo_env (replicate 20 (Effect ApplyBlur)) demo_loaded"
  from nineteen_blurs have s19: "current_image ?s19 = Some 195"
    "history ?s19
       = [5, 5, 15, 25, 35, 45, 55, 65, 75, 85, 95, 105, 115, 125, 135, 145, 155, 165, 175, 185]"
    "history_index ?s19 = 19" "zoom_factor ?s19 = 1"
    by (simp_all add: image_state_def)
  then have tail: "history_index ?s19 = int (length (history ?s19)) - 1" by simp
  from blur_step(2,3) [OF s19(1) tail s19(4)] s19(2)
  have s20: "history ?s20
       = [5, 15, 25, 35, 45, 55, 65, 75, 85, 95, 105, 115, 125, 135, 145, 155, 165, 175, 185, 195]"
    "history_index ?s20 = 19"
    by (simp_all add: twenty_blurs deque_append_def maxlen_def)
  then have "0 < history_index ?s20" "history_index ?s20 < int (length (history ?s20))"
    "history_index ?s20 \<le> int 19"
    by simp_all
  from undo_to_start [OF this, of demo_env] s20(1)
  have "current_image ((undo demo_env ^^ 19) ?s20) = Some 5" by simp
  with s19(2) s20(1) show ?thesis by simp
qed

text \<open>
  Claim C3, as the code has it. Starting from the initial session, no sequence of actions
  (effects, which snapshot, bare snapshots, undo, redo, reset, load, export, zoom, widget
  changes) makes the history hold more than 20 entries. When a snapshot is pushed onto a
  full history whose cursor is at the tail, the oldest entry leaves the stack: whatever
  the number of \<open>undo\<close> calls, the history stays the 19 remaining entries followed by the
  new snapshot, and the current image is one of these. The image of the evicted entry is
  out of reach when it occurs nowhere among them.
\<close>

theorem history_capacity:
  "length (history (run env acts init)) \<le> 20 \<and>
   (current_image s = Some c \<and> length (history s) = 20 \<and> history_index s = 19 \<longrightarrow>
      history (snd (add_to_history s)) = tl (history s) @ [c] \<and>
      (\<forall>k. history ((undo env ^^ k) (snd (add_to_history s))) = tl (history s) @ [c] \<and>
           current_image ((undo env ^^ k) (snd (add_to_history s)))
             \<in> Some ` set (tl (history s) @ [c])) \<and>
      (hd (history s) \<notin> set (tl (history s)) \<and> hd (history s) \<noteq> c \<longrightarrow>
         (\<forall>k. current_image ((undo env ^^ k) (snd (add_to_history s)))
                \<noteq> Some (hd (history s)))))"
proof (intro conjI impI)
  from cursor_ok_run [OF cursor_ok_init, of env acts]
  show "length (history (run env acts init)) \<le> 20"
    by (simp add: cursor_ok_def maxlen_def)
next
  assume a: "current_image s = Some c \<and> length (history s) = 20 \<and> history_index s = 19"
  let ?s' = "snd (add_to_history s)"
  from a have snap: "history ?s' = tl (history s) @ [c]" "current_image ?s' = Some c"
    by (simp_all add: add_to_history_snapshot deque_append_def maxlen_def)
  then show "history ?s' = tl (history s) @ [c]" by simp
  have reach: "history ((undo env ^^ k) ?s') = tl (history s) @ [c] \<and>
      current_image ((undo env ^^ k) ?s') \<in> Some ` set (tl (history s) @ [c])" for k
    using undo_reaches [where env = env and k = k and s = ?s'] snap by auto
  then show "\<forall>k. history ((undo env ^^ k) ?s') = tl (history s) @ [c] \<and>
      current_image ((undo env ^^ k) ?s') \<in> Some ` set (tl (history s) @ [c])"
    by blast
  assume d: "hd (history s) \<notin> set (tl (history s)) \<and> hd (history s) \<noteq> c"
  show "\<forall>k. current_image ((undo env ^^ k) ?s') \<noteq> Some (hd (history s))"
  proof
    fix k
    from reach [of k] d show "current_image ((undo env ^^ k) ?s') \<noteq> Some (hd (history s))"
      by auto
  qed
qed

theorem history_capacity_witness:
  "(current_image demo_full = Some 20 \<and> length (history demo_full) = 20 \<and>
    history_index demo_full = 19) \<and>
   (hd (history demo_full) \<notin> set (tl (history demo_full)) \<and> hd (history demo_full) \<noteq> 20) \<and>
   length (history (run demo_env [Open ''photo.jpg'', Effect ApplyBlur, Undo] init)) \<le> 20 \<and>
   history (snd (add_to_history demo_full))
     = [1, 2, 3, 4, 5, 6, 7, 8, 9, 10, 11, 12, 13, 14, 15, 16, 17, 18, 19, 20] \<and>
   (\<forall>k. history ((undo demo_env ^^ k) (snd (add_to_history demo_full)))
          = [1, 2, 3, 4, 5, 6, 7, 8, 9, 10, 11, 12, 13, 14, 15, 16, 17, 18, 19, 20]) \<and>
   (\<forall>k. current_image ((undo demo_env ^^ k) (snd (add_to_history demo_full))) \<noteq> Some 0)"
proof -
  have h: "current_image demo_full = Some 20 \<and> length (history demo_full) = 20 \<and>
    history_index demo_full = 19"
    by (simp add: demo_full_def)
  have d: "hd (history demo_full) \<notin> set (tl (history demo_full)) \<and> hd (history demo_full) \<noteq> 20"
    by (simp add: demo_full_def)
  have v: "hd (history demo_full) = 0"
    "tl (history demo_full) @ [20]
       = [1, 2, 3, 4, 5, 6, 7, 8, 9, 10, 11, 12, 13, 14, 15, 16, 17, 18, 19, 20]"
    by (simp_all add: demo_full_def)
  note c = history_capacity [where env = demo_env and s = demo_full and c = 20
      and acts = "[Open ''photo.jpg'', Effect ApplyBlur, Undo]"]
  from c have l: "length (history (run demo_env [Open ''photo.jpg'', Effect ApplyBlur, Undo] init))
      \<le> 20" by (rule conjunct1)
  note r = c [THEN conjunct2, rule_format, OF h]
  from r have e: "history (snd (add_to_history demo_full))
      = [1, 2, 3, 4, 5, 6, 7, 8, 9, 10, 11, 12, 13, 14, 15, 16, 17, 18, 19, 20]"
    by (simp add: v)
  from r have k: "\<forall>k. history ((undo demo_env ^^ k) (snd (add_to_history demo_full)))
      = [1, 2, 3, 4, 5, 6, 7, 8, 9, 10, 11, 12, 13, 14, 15, 16, 17, 18, 19, 20]"
    by (simp add: v)
  from r d have u: "\<forall>k. current_image ((undo demo_env ^^ k) (snd (add_to_history demo_full)))
      \<noteq> Some 0"
    by (simp add: v)
  from h d l e k u show ?thesis by blast
qed

text \<open>
  Claim C4. When the cursor is strictly before the tail of the history, a snapshot keeps
  the entries up to the cursor, drops every entry after it, appends the current image and
  puts the cursor on this new tail. From there \<open>redo\<close> does nothing, however often it is
  called, so none of the dropped entries comes back.
\<close>

theorem snapshot_truncates_redo:
  assumes "current_image s = Some c" and "0 \<le> history_index s"
    and "history_index s < int (length (history s)) - 1" and "length (history s) \<le> 20"
  shows "add_to_history s =
           (None, s\<lparr>history := take (nat (history_index s + 1)) (history s) @ [c],
                    history_index := history_index s + 1\<rparr>) \<and>
         history_index (snd (add_to_history s))
           = int (length (history (snd (add_to_history s)))) - 1 \<and>
         (\<forall>k. (redo env ^^ k) (snd (add_to_history s)) = snd (add_to_history s))"
proof -
  let ?h = "take (nat (history_index s + 1)) (history s)"
  from assms have len: "length ?h = nat (history_index s + 1)" "length ?h \<noteq> maxlen"
    by (simp_all add: maxlen_def)
  then have app: "deque_append c ?h = ?h @ [c]" by (simp add: deque_append_def)
  from assms(1,2) have eq: "add_to_history s =
      (None, s\<lparr>history := ?h @ [c], history_index := history_index s + 1\<rparr>)"
    using len(1) by (simp add: add_to_history_snapshot app)
  moreover from eq assms(2) len(1) have tail: "history_index (snd (add_to_history s))
      = int (length (history (snd (add_to_history s)))) - 1"
    by simp
  moreover have "\<forall>k. (redo env ^^ k) (snd (add_to_history s)) = snd (add_to_history s)"
    using tail by (simp add: funpow_fixed redo_at_tail)
  ultimately show ?thesis by simp
qed


theorem snapshot_truncates_redo_witness:
  "(current_image demo_undone = Some 5 \<and> 0 \<le> history_index demo_undone \<and>
    history_index demo_undone < int (length (history demo_undone)) - 1 \<and>
    length (history demo_undone) \<le> 20) \<and>
   add_to_history demo_undone = (None, demo_undone\<lparr>history := [5, 5], history_index := 1\<rparr>) \<and>
   (redo demo_env ^^ 3) (snd (add_to_history demo_undone)) = snd (add_to_history demo_undone)"
proof -
  have h: "current_image demo_undone = Some 5" "0 \<le> history_index demo_undone"
    "history_index demo_undone < int (length (history demo_undone)) - 1"
    "length (history demo_undone) \<le> 20"
    by (simp_all add: demo_undone_def demo_loaded_eq)
  have v: "demo_undone\<lparr>history :=
                take (nat (history_index demo_undone + 1)) (history demo_undone) @ [5],
              history_index := history_index demo_undone + 1\<rparr>
           = demo_undone\<lparr>history := [5, 5], history_index := 1\<rparr>"
    by (simp add: demo_undone_def demo_loaded_eq)
  note t = snapshot_truncates_redo [OF h, of demo_env]
  from t [THEN conjunct1] have a: "add_to_history demo_undone
      = (None, demo_undone\<lparr>history := [5, 5], history_index := 1\<rparr>)"
    by (simp only: v)
  from t have "(redo demo_env ^^ 3) (snd (add_to_history demo_undone))
      = snd (add_to_history demo_undone)"
    by blast
  with a h show ?thesis by blast
qed

section \<open>Tone adjustments and auto-enhance\<close>

lemma pop_loop_beyond:
  "length xs < k \<Longrightarrow> pop_loop k xs = (Some (IndexError ''pop from an empty deque''), [])"
proof (induction k arbitrary: xs)
  case 0
  then show ?case by simp
next
  case (Suc k)
  show ?case
  proof (cases "xs = []")
    case True
    then show ?thesis by simp
  next
    case False
    with Suc.prems have "length (butlast xs) < k" by (cases xs) simp_all
    with Suc.IH [of "butlast xs"] False show ?thesis by simp
  qed
qed

lemma add_to_history_raises:
  assumes "current_image s = Some c" and "history_index s < - 1"
  shows "add_to_history s
           = (Some (IndexError ''pop from an empty deque''), s\<lparr>history := []\<rparr>)"
proof -
  have "length (history s) < nat (int (length (history s)) - history_index s - 1)"
    using assms(2) by simp
  from pop_loop_beyond [OF this] assms show ?thesis
    by (simp add: add_to_history_def Let_def)
qed

lemma adjust_reads:
  "original_image s' = original_image s \<Longrightarrow> brightness_var s' = brightness_var s \<Longrightarrow>
   contrast_var s' = contrast_var s \<Longrightarrow> saturation_var s' = saturation_var s \<Longrightarrow>
   adjust env s' = adjust env s"
  by (simp add: adjust_def split: option.splits)

lemma run_process_current:
  "current_image (run_process env f s) =
     (case f s of Inr (Some r) \<Rightarrow> Some r | _ \<Rightarrow> current_image s)"
  by (simp add: run_process_def processing_failed_def Let_def log_def update_status_def tk_callback_core
        update_image_display_core split: sum.splits option.splits)

lemma run_process_sliders:
  "brightness_var (run_process env f s) = brightness_var s"
  "contrast_var (run_process env f s) = contrast_var s"
  "saturation_var (run_process env f s) = saturation_var s"
  by (simp_all add: run_process_def processing_failed_def Let_def log_def update_status_def tk_callback_core
        update_image_display_core split: sum.splits option.splits)

lemma apply_adjustments_idle:
  "original_image s = None \<or> current_image s = None \<Longrightarrow> apply_adjustments env s = s"
  by (auto simp: apply_adjustments_def process_with_progress_no_image)

lemma apply_adjustments_raises:
  assumes "original_image s \<noteq> None" and "current_image s = Some c"
    and "history_index s < - 1"
  shows "apply_adjustments env s
           = log (Uncaught (IndexError ''pop from an empty deque'')) (s\<lparr>history := []\<rparr>)"
  using assms
  by (auto simp: apply_adjustments_def process_with_progress_def add_to_history_raises)

lemma apply_adjustments_dispatched:
  assumes "original_image s \<noteq> None" and "current_image s = Some c"
    and "- 1 \<le> history_index s"
  shows "current_image (apply_adjustments env s) =
           (case adjust env s of Inr (Some r) \<Rightarrow> Some r | _ \<Rightarrow> Some c)"
    and "- 1 \<le> history_index (apply_adjustments env s)"
    and "original_image (apply_adjustments env s) = original_image s"
    and "brightness_var (apply_adjustments env s) = brightness_var s"
    and "contrast_var (apply_adjustments env s) = contrast_var s"
    and "saturation_var (apply_adjustments env s) = saturation_var s"
proof -
  let ?s1 = "snd (add_to_history s)"
  let ?s2 = "log ThreadStarted (update_status ''Applying adjustments...'' ?s1)"
  have snap: "add_to_history s = (None, ?s1)"
    using add_to_history_snapshot [OF assms(2,3)] by simp
  have s1: "original_image ?s1 = original_image s" "brightness_var ?s1 = brightness_var s"
    "contrast_var ?s1 = contrast_var s" "saturation_var ?s1 = saturation_var s"
    "current_image ?s1 = Some c" "0 \<le> history_index ?s1"
    using add_to_history_snapshot [OF assms(2,3)] assms(2)
      deque_append_nonempty [of c "take (nat (history_index s + 1)) (history s)"]
    by simp_all
  then have same: "adjust env ?s2 = adjust env s"
    by (intro adjust_reads) (simp_all add: log_def update_status_def)
  have eq: "apply_adjustments env s = run_process env (adjust env) ?s2"
    using assms(1) process_with_progress_dispatch [OF assms(2,3)]
    by (auto simp: apply_adjustments_def)
  show "current_image (apply_adjustments env s) =
           (case adjust env s of Inr (Some r) \<Rightarrow> Some r | _ \<Rightarrow> Some c)"
  proof -
    have "current_image ?s2 = Some c" using s1 by (simp add: log_def update_status_def)
    then show ?thesis
      by (simp only: eq run_process_current same)
  qed
  show "- 1 \<le> history_index (apply_adjustments env s)"
    using s1 by (simp add: eq run_process_core log_def update_status_def)
  show "original_image (apply_adjustments env s) = original_image s"
    using s1 by (simp add: eq run_process_core log_def update_status_def)
  show "brightness_var (apply_adjustments env s) = brightness_var s"
    "contrast_var (apply_adjustments env s) = contrast_var s"
    "saturation_var (apply_adjustments env s) = saturation_var s"
    using s1 by (simp_all add: eq run_process_sliders log_def update_status_def)
qed

lemma apply_adjustments_twice:
  "current_image (apply_adjustments env (apply_adjustments env s))
     = current_image (apply_adjustments env s)"
proof (cases "original_image s = None \<or> current_image s = None")
  case True
  then show ?thesis by (simp add: apply_adjustments_idle)
next
  case False
  then obtain c where c: "current_image s = Some c" and o: "original_image s \<noteq> None"
    by auto
  let ?s' = "apply_adjustments env s"
  show ?thesis
  proof (cases "history_index s < - 1")
    case True
    from apply_adjustments_raises [OF o c True, of env]
    have "original_image ?s' \<noteq> None" "current_image ?s' = Some c" "history_index ?s' < - 1"
      using o c True by (simp_all add: log_def)
    from apply_adjustments_raises [OF this, of env] this(2) show ?thesis
      by (simp add: log_def)
  next
    case False
    then have i: "- 1 \<le> history_index s" by simp
    note first = apply_adjustments_dispatched [OF o c i, of env]
    obtain c' where c': "current_image ?s' = Some c'"
      using first(1) by (auto split: sum.splits option.splits)
    have o': "original_image ?s' \<noteq> None" using first(3) o by simp
    note second = apply_adjustments_dispatched [OF o' c' first(2), of env]
    have "adjust env ?s' = adjust env s"
      using first(3-6) by (intro adjust_reads)
    with second(1) first(1) c' show ?thesis
      by (auto split: sum.splits option.splits)
  qed
qed

text \<open>
  Claim C5. The closure of \<open>apply_adjustments\<close> does not read \<open>current_image\<close>: its result
  is the same whatever the current image is. It runs the brightness stage on the original
  image, the contrast stage on that result and the saturation stage on that one, and when
  the three succeed the last result becomes the current image. Requesting the operation
  twice with the sliders untouched leaves the same current image as requesting it once.
\<close>

theorem adjustments_from_original:
  "adjust env (s\<lparr>current_image := x\<rparr>) = adjust env s \<and>
   (original_image s = Some orig \<and> current_image s \<noteq> None \<and> - 1 \<le> history_index s \<and>
    tone_stage env Brightness (brightness_var s) orig = Inr a1 \<and>
    tone_stage env Contrast (contrast_var s) a1 = Inr a2 \<and>
    tone_stage env Color (saturation_var s) a2 = Inr a3 \<longrightarrow>
      current_image (apply_adjustments env s) = Some a3) \<and>
   current_image (apply_adjustments env (apply_adjustments env s))
     = current_image (apply_adjustments env s)"
proof (intro conjI impI)
  show "adjust env (s\<lparr>current_image := x\<rparr>) = adjust env s"
    by (simp add: adjust_def split: option.splits)
next
  assume a: "original_image s = Some orig \<and> current_image s \<noteq> None \<and>
    - 1 \<le> history_index s \<and>
    tone_stage env Brightness (brightness_var s) orig = Inr a1 \<and>
    tone_stage env Contrast (contrast_var s) a1 = Inr a2 \<and>
    tone_stage env Color (saturation_var s) a2 = Inr a3"
  then obtain c where c: "current_image s = Some c" by auto
  from a have r: "adjust env s = Inr (Some a3)"
    by (simp add: adjust_def and_then_def)
  from a have "original_image s \<noteq> None" and "- 1 \<le> history_index s" by simp_all
  from apply_adjustments_dispatched(1) [OF this(1) c this(2), of env] r
  show "current_image (apply_adjustments env s) = Some a3" by simp
next
  show "current_image (apply_adjustments env (apply_adjustments env s))
     = current_image (apply_adjustments env s)"
    by (rule apply_adjustments_twice)
qed


theorem adjustments_from_original_witness:
  "(original_image demo_sliders = Some 5 \<and> current_image demo_sliders \<noteq> None \<and>
    - 1 \<le> history_index demo_sliders \<and>
    tone_stage demo_env Brightness (brightness_var demo_sliders) 5 = Inr 6 \<and>
    tone_stage demo_env Contrast (contrast_var demo_sliders) 6 = Inr 12 \<and>
    tone_stage demo_env Color (saturation_var demo_sliders) 12 = Inr 15) \<and>
   current_image (apply_adjustments demo_env demo_sliders) = Some 15"
proof -
  have h: "original_image demo_sliders = Some 5 \<and> current_image demo_sliders \<noteq> None \<and>
    - 1 \<le> history_index demo_sliders \<and>
    tone_stage demo_env Brightness (brightness_var demo_sliders) 5 = Inr 6 \<and>
    tone_stage demo_env Contrast (contrast_var demo_sliders) 6 = Inr 12 \<and>
    tone_stage demo_env Color (saturation_var demo_sliders) 12 = Inr 15"
    by (simp add: demo_sliders_def demo_loaded_eq tone_stage_def demo_env_def)
  from adjustments_from_original [where env = demo_env and s = demo_sliders and orig = 5
      and ?a1.0 = 6 and ?a2.0 = 12 and ?a3.0 = 15]
  have "current_image (apply_adjustments demo_env demo_sliders) = Some 15"
    using h by blast
  with h show ?thesis by blast
qed

text \<open>
  Claim C6. A tone stage whose slider is at 1.0 returns the image it is given, for every
  enhancer and every library. With the three sliders at 1.0 the closure of
  \<open>apply_adjustments\<close> returns the original image itself, and on a session with an image
  the operation makes that image the current one.
\<close>

theorem unit_multiplier_is_identity:
  "tone_stage env enhancer 1 im = Inr im \<and>
   (original_image s = Some orig \<and> brightness_var s = 1 \<and> contrast_var s = 1 \<and>
    saturation_var s = 1 \<longrightarrow>
      adjust env s = Inr (Some orig) \<and>
      (current_image s \<noteq> None \<and> - 1 \<le> history_index s \<longrightarrow>
         current_image (apply_adjustments env s) = Some orig))"
proof (intro conjI impI)
  show "tone_stage env enhancer 1 im = Inr im" by (simp add: tone_stage_def)
next
  assume a: "original_image s = Some orig \<and> brightness_var s = 1 \<and> contrast_var s = 1 \<and>
    saturation_var s = 1"
  then show r: "adjust env s = Inr (Some orig)"
    by (simp add: adjust_def tone_stage_def and_then_def)
  assume b: "current_image s \<noteq> None \<and> - 1 \<le> history_index s"
  then obtain c where c: "current_image s = Some c" by auto
  from a have "original_image s \<noteq> None" by simp
  from apply_adjustments_dispatched(1) [OF this c, of env] b r
  show "current_image (apply_adjustments env s) = Some orig" by simp
qed

theorem unit_multiplier_is_identity_witness:
  "(original_image demo_edited = Some 5 \<and> brightness_var demo_edited = 1 \<and>
    contrast_var demo_edited = 1 \<and> saturation_var demo_edited = 1) \<and>
   (current_image demo_edited \<noteq> None \<and> - 1 \<le> history_index demo_edited) \<and>
   current_image demo_edited = Some 15 \<and>
   adjust demo_env demo_edited = Inr (Some 5) \<and>
   current_image (apply_adjustments demo_env demo_edited) = Some 5"
proof -
  have h: "original_image demo_edited = Some 5 \<and> brightness_var demo_edited = 1 \<and>
    contrast_var demo_edited = 1 \<and> saturation_var demo_edited = 1"
    "current_image demo_edited \<noteq> None \<and> - 1 \<le> history_index demo_edited"
    "current_image demo_edited = Some 15"
    by (simp_all add: demo_edited_def demo_loaded_eq)
  from unit_multiplier_is_identity [where env = demo_env and s = demo_edited and orig = 5] h
  show ?thesis by blast
qed

lemma on_current_reads:
  "current_image s' = current_image s \<Longrightarrow> on_current f s' = on_current f s"
  by (simp add: on_current_def)

lemma auto_enhance_dispatched:
  assumes "current_image s = Some c" and "- 1 \<le> history_index s"
  shows "current_image (auto_enhance env s) =
           (case enhance env s of Inr (Some r) \<Rightarrow> Some r | _ \<Rightarrow> Some c)"
    and "original_image (auto_enhance env s) = original_image s"
    and "history (auto_enhance env s)
           = deque_append c (take (nat (history_index s + 1)) (history s))"
proof -
  let ?s2 = "log ThreadStarted (update_status ''Auto enhancing...'' (snd (add_to_history s)))"
  have s2: "current_image ?s2 = Some c" "original_image ?s2 = original_image s"
    "history ?s2 = deque_append c (take (nat (history_index s + 1)) (history s))"
    using add_to_history_snapshot [OF assms] assms(1)
    by (simp_all add: log_def update_status_def)
  then have same: "enhance env ?s2 = enhance env s"
    using assms(1) by (simp add: enhance_def on_current_reads)
  have eq: "auto_enhance env s = run_process env (enhance env) ?s2"
    using assms(1) process_with_progress_dispatch [OF assms]
    by (simp add: auto_enhance_def)
  show "current_image (auto_enhance env s) =
           (case enhance env s of Inr (Some r) \<Rightarrow> Some r | _ \<Rightarrow> Some c)"
    using s2(1) by (simp only: eq run_process_current same)
  show "original_image (auto_enhance env s) = original_image s"
    using s2(2) by (simp only: eq run_process_core)
  show "history (auto_enhance env s)
           = deque_append c (take (nat (history_index s + 1)) (history s))"
    using s2(3) by (simp only: eq run_process_core)
qed

text \<open>
  Claim C7. The closure of \<open>auto_enhance\<close> is contrast 1.2, then colour 1.1 on that result,
  then sharpness 1.1 on that one, starting from \<open>current_image\<close>; it does not read
  \<open>original_image\<close>. When the three library calls succeed, the operation makes the last
  result the current image and leaves the original image alone.
\<close>

theorem auto_enhance_composition:
  "enhance env (s\<lparr>original_image := x\<rparr>) = enhance env s \<and>
   (current_image s = Some c \<longrightarrow>
      enhance env s =
        and_then (pil env (Contrast 1.2) c) (\<lambda>e1.
        and_then (pil env (Color 1.1) e1) (\<lambda>e2.
        and_then (pil env (Sharpness 1.1) e2) (\<lambda>e3. Inr (Some e3))))) \<and>
   (current_image s = Some c \<and> - 1 \<le> history_index s \<and>
    pil env (Contrast 1.2) c = Inr e1 \<and> pil env (Color 1.1) e1 = Inr e2 \<and>
    pil env (Sharpness 1.1) e2 = Inr e3 \<longrightarrow>
      current_image (auto_enhance env s) = Some e3 \<and>
      original_image (auto_enhance env s) = original_image s)"
proof (intro conjI impI)
  show "enhance env (s\<lparr>original_image := x\<rparr>) = enhance env s"
    by (simp add: enhance_def on_current_def)
next
  assume "current_image s = Some c"
  then show "enhance env s =
        and_then (pil env (Contrast 1.2) c) (\<lambda>e1.
        and_then (pil env (Color 1.1) e1) (\<lambda>e2.
        and_then (pil env (Sharpness 1.1) e2) (\<lambda>e3. Inr (Some e3))))"
    by (simp add: enhance_def on_current_def and_then_def split: sum.splits)
next
  assume a: "current_image s = Some c \<and> - 1 \<le> history_index s \<and>
    pil env (Contrast 1.2) c = Inr e1 \<and> pil env (Color 1.1) e1 = Inr e2 \<and>
    pil env (Sharpness 1.1) e2 = Inr e3"
  then have r: "enhance env s = Inr (Some e3)"
    by (simp add: enhance_def on_current_def and_then_def)
  from a have c: "current_image s = Some c" and i: "- 1 \<le> history_index s" by simp_all
  from auto_enhance_dispatched(1) [OF c i, of env] r
  show "current_image (auto_enhance env s) = Some e3" by simp
  from auto_enhance_dispatched(2) [OF c i, of env]
  show "original_image (auto_enhance env s) = original_image s" .
qed

theorem auto_enhance_composition_witness:
  "current_image demo_edited = Some 15 \<and>
   (current_image demo_edited = Some 15 \<and> - 1 \<le> history_index demo_edited \<and>
    pil demo_env (Contrast 1.2) 15 = Inr 30 \<and> pil demo_env (Color 1.1) 30 = Inr 33 \<and>
    pil demo_env (Sharpness 1.1) 33 = Inr 99) \<and>
   enhance demo_env demo_edited =
     and_then (pil demo_env (Contrast 1.2) 15) (\<lambda>e1.
     and_then (pil demo_env (Color 1.1) e1) (\<lambda>e2.
     and_then (pil demo_env (Sharpness 1.1) e2) (\<lambda>e3. Inr (Some e3)))) \<and>
   current_image (auto_enhance demo_env demo_edited) = Some 99 \<and>
   original_image (auto_enhance demo_env demo_edited) = Some 5"
proof -
  have h: "current_image demo_edited = Some 15 \<and> - 1 \<le> history_index demo_edited \<and>
    pil demo_env (Contrast 1.2) 15 = Inr 30 \<and> pil demo_env (Color 1.1) 30 = Inr 33 \<and>
    pil demo_env (Sharpness 1.1) 33 = Inr 99"
    by (simp add: demo_edited_def demo_loaded_eq demo_env_def)
  have o: "original_image demo_edited = Some 5"
    by (simp add: demo_edited_def demo_loaded_eq)
  from auto_enhance_composition [where env = demo_env and s = demo_edited and c = 15
      and ?e1.0 = 30 and ?e2.0 = 33 and ?e3.0 = 99] h o
  show ?thesis by metis
qed


section \<open>Dispatch, rejection and export\<close>

text \<open>
  What a failed operation leaves behind, for every session with an image and a valid
  cursor and every closure that raises in the worker: the operation is dispatched, the
  current image is the one before the request, the history is the old one up to the cursor
  with that image appended as its last entry and the cursor on it, and the original image
  and the two counters are unchanged. The events added are the status text, the start of
  the worker and the report of the scheduled callback, which finds \<open>e\<close> unbound.
\<close>

lemma failed_operation_state:
  assumes "current_image s = Some c" and "- 1 \<le> history_index s"
    and "process_func (log ThreadStarted (update_status message (snd (add_to_history s)))) = Inl e"
  shows "fst (process_with_progress env message process_func s) = None \<and>
         events (snd (process_with_progress env message process_func s))
           = events (processing_failed None (s\<lparr>events := events s @ [Status message, ThreadStarted]\<rparr>)) \<and>
         current_image (snd (process_with_progress env message process_func s)) = Some c \<and>
         original_image (snd (process_with_progress env message process_func s))
           = original_image s \<and>
         history (snd (process_with_progress env message process_func s))
           = deque_append c (take (nat (history_index s + 1)) (history s)) \<and>
         last (history (snd (process_with_progress env message process_func s))) = c \<and>
         history_index (snd (process_with_progress env message process_func s))
           = int (length (history (snd (process_with_progress env message process_func s)))) - 1 \<and>
         operations_performed (snd (process_with_progress env message process_func s))
           = operations_performed s \<and>
         images_processed (snd (process_with_progress env message process_func s))
           = images_processed s"
proof -
  let ?s2 = "log ThreadStarted (update_status message (snd (add_to_history s)))"
  have eq: "process_with_progress env message process_func s = (None, processing_failed None ?s2)"
    using process_with_progress_dispatch [OF assms(1,2), of env message process_func] assms(3)
    by (simp add: run_process_def)
  have "last (deque_append c (take (nat (history_index s + 1)) (history s))) = c"
    by (simp add: deque_append_def)
  then show ?thesis
    using assms(1)
    by (simp add: eq add_to_history_snapshot [OF assms(1,2)] log_def update_status_def
          processing_failed_def)
qed

text \<open>
  Claim C8, on a concrete run. The session holds the image 15 with the history [5, 5]
  and the library raises "not enough memory" in \<open>ImageOps.equalize\<close>. After
  \<open>histogram_equalization\<close> the current image is still 15 and the history is [5, 5, 15], as
  the claim says. The error box is not among the events: the callback that should show it
  raises NameError, because it reads \<open>e\<close> after the \<open>except\<close> clause has ended.
\<close>

theorem failed_operation_shows_no_error:
  "pil demo_env Equalize 15 = Inl (OtherError ''not enough memory'') \<and>
   current_image demo_edited = Some 15 \<and>
   current_image (histogram_equalization demo_env demo_edited) = Some 15 \<and>
   history (histogram_equalization demo_env demo_edited) = [5, 5, 15] \<and>
   history_index (histogram_equalization demo_env demo_edited) = 2 \<and>
   events (histogram_equalization demo_env demo_edited)
     = [Status ''Loaded: photo.jpg'', Status ''Equalizing histogram...'', ThreadStarted,
        Uncaught (NameError (''cannot access free variable '' @ [CHR 0x27] @ ''e'' @ [CHR 0x27] @
                             '' where it is not associated with a value in enclosing scope''))]"
  by (simp add: histogram_equalization_def process_with_progress_def add_to_history_def
        run_process_def processing_failed_def on_current_def and_then_def demo_edited_def
        demo_loaded_eq demo_env_def log_def update_status_def deque_append_def maxlen_def Let_def)

text \<open>
  Claim C9. On a session with an image, when the width or height entry does not convert
  to an integer or one of the two integers is not positive, \<open>resize_image\<close> shows the error
  box "Invalid dimensions!" and does nothing else: no status text, no worker, and the
  history, the cursor, the current and original image and the counters are as before.
\<close>

theorem resize_rejects_invalid:
  assumes "current_image s \<noteq> None" and "\<not> positive_dimensions env s"
  shows "resize_image env s = log (ShowError ''Error'' ''Invalid dimensions!'') s \<and>
         events (resize_image env s) = events s @ [ShowError ''Error'' ''Invalid dimensions!''] \<and>
         history (resize_image env s) = history s \<and>
         history_index (resize_image env s) = history_index s \<and>
         current_image (resize_image env s) = current_image s \<and>
         original_image (resize_image env s) = original_image s \<and>
         operations_performed (resize_image env s) = operations_performed s"
proof -
  from assms have "resize_image env s = invalid_dimensions s"
    by (cases "int_of_str env (width_var s)"; cases "int_of_str env (height_var s)")
      (auto simp: resize_image_def positive_dimensions_def)
  then show ?thesis by (simp add: invalid_dimensions_def log_def)
qed

theorem resize_rejects_invalid_witness:
  "(current_image demo_zero_width \<noteq> None \<and> \<not> positive_dimensions demo_env demo_zero_width) \<and>
   int_of_str demo_env (width_var demo_zero_width) = Some 0 \<and>
   events (resize_image demo_env demo_zero_width)
     = [Status ''Loaded: photo.jpg'', ShowError ''Error'' ''Invalid dimensions!''] \<and>
   history (resize_image demo_env demo_zero_width) = [5] \<and>
   current_image (resize_image demo_env demo_zero_width) = Some 5"
proof -
  have h: "current_image demo_zero_width \<noteq> None"
    "\<not> positive_dimensions demo_env demo_zero_width"
    by (simp_all add: demo_zero_width_def demo_loaded_eq positive_dimensions_def demo_env_def)
  have v: "int_of_str demo_env (width_var demo_zero_width) = Some 0"
    "events demo_zero_width = [Status ''Loaded: photo.jpg'']"
    "history demo_zero_width = [5]" "current_image demo_zero_width = Some 5"
    by (simp_all add: demo_zero_width_def demo_loaded_eq demo_env_def)
  from resize_rejects_invalid [OF h, THEN conjunct2] h show ?thesis
    by (simp add: v)
qed


lemma request_no_image:
  assumes "current_image s = None"
  shows "request env e s =
           (if e = ResizeImage \<or> e = AddWatermark
            then log (ShowWarning ''Warning'' ''No image loaded!'') s else s)"
proof (cases e)
  case ApplyAdjustments
  with assms show ?thesis by (simp add: apply_adjustments_idle)
next
  case ResizeImage
  with assms show ?thesis by (simp add: resize_image_def)
next
  case AddWatermark
  with assms show ?thesis by (simp add: add_watermark_def)
qed (use assms in \<open>simp_all add: guarded_handler_defs\<close>)

text \<open>
  Claim C10, as the code has it. With no image loaded, \<open>process_with_progress\<close> returns at
  once and every effect request leaves the history, the cursor, the current and original
  image and both counters as they are, and starts no worker. The request is silent except
  for \<open>resize_image\<close> and \<open>add_watermark\<close>, which show the warning "No image loaded!".
\<close>

theorem no_image_no_effect:
  assumes "current_image s = None"
  shows "process_with_progress env message process_func s = (None, s) \<and>
         request env e s =
           (if e = ResizeImage \<or> e = AddWatermark
            then log (ShowWarning ''Warning'' ''No image loaded!'') s else s) \<and>
         events (request env e s) =
           events s @ (if e = ResizeImage \<or> e = AddWatermark
                       then [ShowWarning ''Warning'' ''No image loaded!''] else []) \<and>
         history (request env e s) = history s \<and>
         history_index (request env e s) = history_index s \<and>
         current_image (request env e s) = None \<and>
         original_image (request env e s) = original_image s \<and>
         images_processed (request env e s) = images_processed s \<and>
         operations_performed (request env e s) = operations_performed s"
  using assms
  by (simp add: request_no_image process_with_progress_no_image log_def)

theorem no_image_no_effect_witness:
  "current_image (init :: nat session) = None \<and>
   request demo_env ApplyBlur init = init \<and>
   request demo_env AddWatermark init = log (ShowWarning ''Warning'' ''No image loaded!'') init \<and>
   history (request demo_env ApplyBlur (init :: nat session)) = []"
proof -
  have h: "current_image (init :: nat session) = None" by (simp add: init_def)
  have v: "history (init :: nat session) = []" by (simp add: init_def)
  from no_image_no_effect [OF h, where env = demo_env and e = ApplyBlur]
    no_image_no_effect [OF h, where env = demo_env and e = AddWatermark] h
  show ?thesis by (simp add: v)
qed

text \<open>
  With no image loaded, \<open>resize_image\<close> is not silent: on the initial session it shows a
  warning box.
\<close>

theorem resize_without_image_warns:
  "current_image (init :: nat session) = None \<and>
   events (init :: nat session) = [] \<and>
   events (request demo_env ResizeImage init) = [ShowWarning ''Warning'' ''No image loaded!'']"
  by (simp add: init_def resize_image_def log_def)

lemma export_loop_formats:
  "export_loop env folder base im formats [] s =
     (case export_one env im (path_join env folder (base @ ''.png'')) ''PNG'' of
        Some e \<Rightarrow> (Some e, [], s)
      | None \<Rightarrow>
          (case export_one env im (path_join env folder (base @ ''.jpg'')) ''JPEG'' of
             Some e \<Rightarrow>
               (Some e, [''PNG''],
                log (FileSaved (path_join env folder (base @ ''.png'')) ''PNG'') s)
           | None \<Rightarrow>
               (case export_one env im (path_join env folder (base @ ''.webp'')) ''WebP'' of
                  Some e \<Rightarrow>
                    (Some e, [''PNG'', ''JPEG''],
                     log (FileSaved (path_join env folder (base @ ''.jpg'')) ''JPEG'')
                       (log (FileSaved (path_join env folder (base @ ''.png'')) ''PNG'') s))
                | None \<Rightarrow>
                    (None, [''PNG'', ''JPEG'', ''WebP''],
                     log (FileSaved (path_join env folder (base @ ''.webp'')) ''WebP'')
                       (log (FileSaved (path_join env folder (base @ ''.jpg'')) ''JPEG'')
                          (log (FileSaved (path_join env folder (base @ ''.png'')) ''PNG'') s))))))"
  by (simp add: formats_def Let_def split: option.splits)

text \<open>
  Claim C2, as the code has it. \<open>export_all_formats\<close> encodes PNG, then JPEG, then WebP,
  each to its own file, and stops at the first format that fails: the files written
  before it stay, the failing format and the ones after it are not written, and the
  error box "Export failed" is shown. When no format fails the three files are written,
  followed by the status text and the success box.
\<close>

theorem export_stops_at_first_failure:
  assumes "current_image s = Some im" and "folder \<noteq> []"
    and "png = path_join env folder (export_base_name env s @ ''.png'')"
    and "jpg = path_join env folder (export_base_name env s @ ''.jpg'')"
    and "webp = path_join env folder (export_base_name env s @ ''.webp'')"
  shows "events (export_all_formats env folder s) = events s @
     (case export_one env im png ''PNG'' of
        Some e \<Rightarrow> [ShowError ''Error'' (''Export failed: '' @ str e)]
      | None \<Rightarrow>
          FileSaved png ''PNG'' #
          (case export_one env im jpg ''JPEG'' of
             Some e \<Rightarrow> [ShowError ''Error'' (''Export failed: '' @ str e)]
           | None \<Rightarrow>
               FileSaved jpg ''JPEG'' #
               (case export_one env im webp ''WebP'' of
                  Some e \<Rightarrow> [ShowError ''Error'' (''Export failed: '' @ str e)]
                | None \<Rightarrow>
                    [FileSaved webp ''WebP'',
                     Status (''Exported '' @ str_of_int env 3 @ '' formats''),
                     ShowInfo ''Success''
                       (''Exported to '' @ folder @ [CHR 0x5C] @ ''n'' @ ''PNG, JPEG, WebP'')])))"
  using assms
  by (simp add: export_all_formats_def export_loop_formats Let_def log_def update_status_def
        split: option.splits)

theorem export_stops_at_first_failure_witness:
  "(current_image demo_loaded = Some 5 \<and> ''backup'' \<noteq> [] \<and>
    ''backup/photo.png'' = path_join demo_env ''backup'' (export_base_name demo_env demo_loaded @ ''.png'') \<and>
    ''backup/photo.jpg'' = path_join demo_env ''backup'' (export_base_name demo_env demo_loaded @ ''.jpg'') \<and>
    ''backup/photo.webp'' = path_join demo_env ''backup'' (export_base_name demo_env demo_loaded @ ''.webp'')) \<and>
   events (export_all_formats demo_env ''backup'' demo_loaded) =
     [Status ''Loaded: photo.jpg'',
      FileSaved ''backup/photo.png'' ''PNG'', FileSaved ''backup/photo.jpg'' ''JPEG'',
      FileSaved ''backup/photo.webp'' ''WebP'',
      Status ''Exported # formats'',
      ShowInfo ''Success'' (''Exported to backup'' @ [CHR 0x5C] @ ''nPNG, JPEG, WebP'')]"
proof -
  have h: "current_image demo_loaded = Some 5" "''backup'' \<noteq> []"
    "''backup/photo.png'' = path_join demo_env ''backup'' (export_base_name demo_env demo_loaded @ ''.png'')"
    "''backup/photo.jpg'' = path_join demo_env ''backup'' (export_base_name demo_env demo_loaded @ ''.jpg'')"
    "''backup/photo.webp'' = path_join demo_env ''backup'' (export_base_name demo_env demo_loaded @ ''.webp'')"
    by (simp_all add: demo_loaded_eq export_base_name_def demo_env_def)
  have v: "export_one demo_env 5 ''backup/photo.png'' ''PNG'' = None"
    "export_one demo_env 5 ''backup/photo.jpg'' ''JPEG'' = None"
    "export_one demo_env 5 ''backup/photo.webp'' ''WebP'' = None"
    "events demo_loaded = [Status ''Loaded: photo.jpg'']"
    "str_of_int demo_env 3 = ''#''"
    by (simp_all add: export_one_def demo_env_def demo_loaded_eq)
  from export_stops_at_first_failure [OF h]
  have "events (export_all_formats demo_env ''backup'' demo_loaded) =
     [Status ''Loaded: photo.jpg'',
      FileSaved ''backup/photo.png'' ''PNG'', FileSaved ''backup/photo.jpg'' ''JPEG'',
      FileSaved ''backup/photo.webp'' ''WebP'',
      Status ''Exported # formats'',
      ShowInfo ''Success'' (''Exported to backup'' @ [CHR 0x5C] @ ''nPNG, JPEG, WebP'')]"
    by (simp add: v)
  with h show ?thesis by blast
qed

text \<open>
  A failure in one format does block the others: \<open>out/photo.png\<close> cannot be written, the
  JPEG and WebP files could be, and after \<open>export_all_formats\<close> no file has been saved.
\<close>

theorem export_failure_blocks_rest:
  "export_one demo_env 5 ''out/photo.png'' ''PNG'' = Some (OtherError ''Permission denied'') \<and>
   export_one demo_env 5 ''out/photo.jpg'' ''JPEG'' = None \<and>
   export_one demo_env 5 ''out/photo.webp'' ''WebP'' = None \<and>
   current_image demo_loaded = Some 5 \<and>
   events (export_all_formats demo_env ''out'' demo_loaded) =
     [Status ''Loaded: photo.jpg'', ShowError ''Error'' ''Export failed: Permission denied'']"
  by (simp add: demo_loaded_eq export_all_formats_def export_base_name_def export_loop_formats
        export_one_def demo_env_def log_def Let_def)

end
